theory Spec2Isabelle
  imports Complex_Main "HOL-Library.AList" "HOL-Library.Char_ord" "HOL-Library.List_Lexorder"
begin

section \<open>Python strings\<close>

text \<open>
  A Python \<^verbatim>\<open>str\<close> is modelled as a \<^typ>\<open>string\<close> whose characters are the code
  points below 256. On these code points \<^verbatim>\<open>str.isspace\<close>, \<^verbatim>\<open>str.isalnum\<close> and
  \<^verbatim>\<open>str.lower\<close> are the following tables (\<^verbatim>\<open>str.lower\<close> acts character by
  character there and never changes the length).
\<close>

definition py_isspace :: "char \<Rightarrow> bool" where
  "py_isspace c =
     (let n = (of_char c :: nat)
      in (9 \<le> n \<and> n \<le> 13) \<or> (28 \<le> n \<and> n \<le> 32) \<or> n = 133 \<or> n = 160)"

definition py_isalnum :: "char \<Rightarrow> bool" where
  "py_isalnum c =
     (let n = (of_char c :: nat)
      in (48 \<le> n \<and> n \<le> 57) \<or> (65 \<le> n \<and> n \<le> 90) \<or> (97 \<le> n \<and> n \<le> 122)
         \<or> n = 170 \<or> n = 178 \<or> n = 179 \<or> n = 181 \<or> n = 185 \<or> n = 186
         \<or> (188 \<le> n \<and> n \<le> 190) \<or> (192 \<le> n \<and> n \<le> 214)
         \<or> (216 \<le> n \<and> n \<le> 246) \<or> (248 \<le> n \<and> n \<le> 255))"

definition py_lower_char :: "char \<Rightarrow> char" where
  "py_lower_char c =
     (let n = (of_char c :: nat)
      in if (65 \<le> n \<and> n \<le> 90) \<or> (192 \<le> n \<and> n \<le> 214) \<or> (216 \<le> n \<and> n \<le> 222)
         then char_of (n + 32) else c)"

definition py_lower :: "string \<Rightarrow> string" where
  "py_lower s = map py_lower_char s"

text \<open>\<^verbatim>\<open>sep.join(parts)\<close> on a list of strings.\<close>

fun py_join :: "string \<Rightarrow> string list \<Rightarrow> string" where
  "py_join sep [] = []"
| "py_join sep [x] = x"
| "py_join sep (x # y # ys) = x @ sep @ py_join sep (y # ys)"

text \<open>
  \<^verbatim>\<open>s.split()\<close> with no argument: the maximal runs of non-whitespace characters,
  in order. The first argument is the word read so far.
\<close>

fun split_acc :: "string \<Rightarrow> string \<Rightarrow> string list" where
  "split_acc w [] = (if w = [] then [] else [w])"
| "split_acc w (c # cs) =
     (if py_isspace c then (if w = [] then split_acc [] cs else w # split_acc [] cs)
      else split_acc (w @ [c]) cs)"

definition py_split :: "string \<Rightarrow> string list" where
  "py_split s = split_acc [] s"

text \<open>\<^verbatim>\<open>s.strip()\<close>: whitespace removed at both ends.\<close>

definition py_strip :: "string \<Rightarrow> string" where
  "py_strip s = rev (dropWhile py_isspace (rev (dropWhile py_isspace s)))"

text \<open>\<^verbatim>\<open>s.startswith(p)\<close>.\<close>

definition startswith :: "string \<Rightarrow> string \<Rightarrow> bool" where
  "startswith s p = (take (length p) s = p)"

section \<open>Python values and dictionaries\<close>

text \<open>
  The values that \<^verbatim>\<open>resp.json()\<close> and \<^verbatim>\<open>csv.DictReader\<close> produce. A dictionary
  is an association list in insertion order; \<^verbatim>\<open>d[k] = v\<close> is \<^const>\<open>AList.update\<close>,
  which overwrites in place or appends, as a Python dictionary does.
\<close>

datatype pyval =
    PNone
  | PBool bool
  | PInt int
  | PFloat real
  | PStr string
  | PList "pyval list"
  | PDict "(string \<times> pyval) list"

type_synonym pydict = "(string \<times> pyval) list"

datatype py_error = TypeError | AttributeError | IndexError | KeyError | RequestError

text \<open>Truth value of a Python object, as tested by \<^verbatim>\<open>if x\<close> and \<^verbatim>\<open>not x\<close>.\<close>

fun truthy :: "pyval \<Rightarrow> bool" where
  "truthy PNone = False"
| "truthy (PBool b) = b"
| "truthy (PInt i) = (i \<noteq> 0)"
| "truthy (PFloat x) = (x \<noteq> 0)"
| "truthy (PStr s) = (s \<noteq> [])"
| "truthy (PList xs) = (xs \<noteq> [])"
| "truthy (PDict d) = (d \<noteq> [])"

text \<open>\<^verbatim>\<open>d.get(k, default)\<close> on a dictionary.\<close>

definition dict_get :: "pydict \<Rightarrow> string \<Rightarrow> pyval \<Rightarrow> pyval" where
  "dict_get d k dflt = (case map_of d k of None \<Rightarrow> dflt | Some v \<Rightarrow> v)"

text \<open>\<^verbatim>\<open>x.get(k, default)\<close> on any value: only a dictionary has the method.\<close>

fun py_get :: "pyval \<Rightarrow> string \<Rightarrow> pyval \<Rightarrow> py_error + pyval" where
  "py_get (PDict d) k dflt = Inr (dict_get d k dflt)"
| "py_get _ k dflt = Inl AttributeError"

text \<open>The item assignments \<^verbatim>\<open>row[k] = v\<close> of a list, performed in order.\<close>

definition assign :: "(string \<times> pyval) list \<Rightarrow> pydict \<Rightarrow> pydict" where
  "assign ws row = fold (\<lambda>(k, v). AList.update k v) ws row"

text \<open>
  \<^verbatim>\<open>sep.join(parts)\<close> where the parts are values: a part that is not a string
  raises \<^verbatim>\<open>TypeError\<close>.
\<close>

fun strs_of :: "pyval list \<Rightarrow> py_error + string list" where
  "strs_of [] = Inr []"
| "strs_of (PStr s # vs) = (case strs_of vs of Inl e \<Rightarrow> Inl e | Inr ss \<Rightarrow> Inr (s # ss))"
| "strs_of (_ # vs) = Inl TypeError"

definition join_vals :: "string \<Rightarrow> pyval list \<Rightarrow> py_error + string" where
  "join_vals sep vs = (case strs_of vs of Inl e \<Rightarrow> Inl e | Inr ss \<Rightarrow> Inr (py_join sep ss))"

section \<open>Address-Key Deduplicator (enrich_providers.py)\<close>

text \<open>
  \<^verbatim>\<open>"".join(ch for ch in key if ch.isalnum() or ch.isspace())\<close> followed by
  \<^verbatim>\<open>" ".join(key.split())\<close>.
\<close>

definition clean_key :: "string \<Rightarrow> string" where
  "clean_key s = py_join '' '' (py_split (filter (\<lambda>ch. py_isalnum ch \<or> py_isspace ch) s))"

definition normalize_address_key :: "pydict \<Rightarrow> py_error + string" where
  "normalize_address_key row =
     (let parts = [dict_get row ''address'' (PStr ''''), dict_get row ''city'' (PStr ''''),
                   dict_get row ''state'' (PStr ''''), dict_get row ''zip'' (PStr '''')]
      in case join_vals '' '' parts of
           Inl e \<Rightarrow> Inl e
         | Inr joined \<Rightarrow>
             (let key = clean_key (py_lower joined)
              in if key = [] then
                   (case dict_get row ''provider_name'' (PStr '''') of
                      PStr name \<Rightarrow> Inr (clean_key (py_lower name))
                    | _ \<Rightarrow> Inl AttributeError)
                 else Inr key))"

text \<open>A record all of whose fields are strings, as \<^verbatim>\<open>Dict[str, str]\<close> declares.\<close>

definition str_row :: "(string \<times> string) list \<Rightarrow> pydict" where
  "str_row r = map (\<lambda>(k, v). (k, PStr v)) r"

definition field :: "(string \<times> string) list \<Rightarrow> string \<Rightarrow> string" where
  "field r k = (case map_of r k of None \<Rightarrow> [] | Some v \<Rightarrow> v)"

subsection \<open>The key as the specification words it\<close>

text \<open>
  Every maximal run of whitespace becomes one space; then the spaces at both ends are
  removed.
\<close>

fun collapse_ws :: "string \<Rightarrow> string" where
  "collapse_ws [] = []"
| "collapse_ws [c] = [if py_isspace c then CHR '' '' else c]"
| "collapse_ws (c # d # cs) =
     (if py_isspace c then (if py_isspace d then collapse_ws (d # cs) else CHR '' '' # collapse_ws (d # cs))
      else c # collapse_ws (d # cs))"

definition strip_spaces :: "string \<Rightarrow> string" where
  "strip_spaces s =
     rev (dropWhile (\<lambda>c. c = CHR '' '') (rev (dropWhile (\<lambda>c. c = CHR '' '') s)))"

definition spec_normalize :: "string \<Rightarrow> string" where
  "spec_normalize s =
     strip_spaces (collapse_ws (filter (\<lambda>c. py_isalnum c \<or> py_isspace c) (py_lower s)))"

definition spec_composite :: "(string \<times> string) list \<Rightarrow> string" where
  "spec_composite r =
     spec_normalize
       (field r ''address'' @ '' '' @ field r ''city'' @ '' '' @ field r ''state'' @ '' ''
          @ field r ''zip'')"

definition spec_address_key :: "(string \<times> string) list \<Rightarrow> string" where
  "spec_address_key r =
     (if spec_composite r = [] then spec_normalize (field r ''provider_name'')
      else spec_composite r)"

section \<open>Enrichment Client (enrich_providers.py)\<close>

text \<open>
  \<^verbatim>\<open>build_query\<close>: the non-empty values of name, address, city, state and zip joined
  with a comma and a space.
\<close>

definition build_query :: "pydict \<Rightarrow> py_error + string" where
  "build_query row =
     (let parts = [dict_get row ''provider_name'' (PStr ''''), dict_get row ''address'' (PStr ''''),
                   dict_get row ''city'' (PStr ''''), dict_get row ''state'' (PStr ''''),
                   dict_get row ''zip'' (PStr '''')]
      in join_vals '', '' (filter truthy parts))"

text \<open>\<^verbatim>\<open>extract_places_fields\<close>: the items whose key starts with \<^verbatim>\<open>places_\<close>.\<close>

definition extract_places_fields :: "pydict \<Rightarrow> pydict" where
  "extract_places_fields row = filter (\<lambda>(k, v). startswith k ''places_'') row"

text \<open>
  The remote service. A call is a text search for a query or a details request for a
  place identifier (the credential is a constant of the run). Given the calls made so
  far and the next call, the request either raises (a transport error, a non-2xx status
  in \<^verbatim>\<open>raise_for_status\<close>, a body that is not JSON) or \<^verbatim>\<open>resp.json()\<close> returns
  a value. The delays after each phase are not modelled.
\<close>

datatype call = TextSearch string | Details pyval

type_synonym api = "call list \<Rightarrow> call \<Rightarrow> py_error + pyval"

text \<open>\<^verbatim>\<open>x[0]\<close> on a value.\<close>

fun py_first :: "pyval \<Rightarrow> py_error + pyval" where
  "py_first (PList []) = Inl IndexError"
| "py_first (PList (x # xs)) = Inr x"
| "py_first (PStr []) = Inl IndexError"
| "py_first (PStr (c # cs)) = Inr (PStr [c])"
| "py_first (PDict d) = Inl KeyError"
| "py_first _ = Inl TypeError"

text \<open>\<^verbatim>\<open>sep.join(x)\<close> on a value: a string iterates its characters, a dictionary its keys.\<close>

fun join_iter :: "string \<Rightarrow> pyval \<Rightarrow> py_error + string" where
  "join_iter sep (PList vs) = join_vals sep vs"
| "join_iter sep (PStr s) = Inr (py_join sep (map (\<lambda>c. [c]) s))"
| "join_iter sep (PDict d) = Inr (py_join sep (map fst d))"
| "join_iter sep _ = Inl TypeError"

definition places_text_search :: "api \<Rightarrow> call list \<Rightarrow> string \<Rightarrow> py_error + (pyval \<times> call list)" where
  "places_text_search api calls query =
     (case api calls (TextSearch query) of
        Inl e \<Rightarrow> Inl e
      | Inr data \<Rightarrow>
          (case py_get data ''status'' PNone of
             Inl e \<Rightarrow> Inl e
           | Inr status \<Rightarrow>
               if status \<noteq> PStr ''OK'' then Inr (PNone, calls @ [TextSearch query])
               else (case py_get data ''results'' (PList [PNone]) of
                       Inl e \<Rightarrow> Inl e
                     | Inr results \<Rightarrow>
                         (case py_first results of
                            Inl e \<Rightarrow> Inl e
                          | Inr result \<Rightarrow> Inr (result, calls @ [TextSearch query])))))"

definition places_details :: "api \<Rightarrow> call list \<Rightarrow> pyval \<Rightarrow> py_error + (pyval \<times> call list)" where
  "places_details api calls place_id =
     (case api calls (Details place_id) of
        Inl e \<Rightarrow> Inl e
      | Inr data \<Rightarrow>
          (case py_get data ''status'' PNone of
             Inl e \<Rightarrow> Inl e
           | Inr status \<Rightarrow>
               if status \<noteq> PStr ''OK'' then Inr (PNone, calls @ [Details place_id])
               else (case py_get data ''result'' PNone of
                       Inl e \<Rightarrow> Inl e
                     | Inr result \<Rightarrow> Inr (result, calls @ [Details place_id]))))"

text \<open>
  The item assignments of \<^verbatim>\<open>enrich_row\<close>, in program order. \<^verbatim>\<open>py_str\<close> is Python's
  \<^verbatim>\<open>str\<close> on a value, a parameter of the model.

  The assignments of lines 142 to 148, from the first search result:
\<close>

definition search_assignments ::
  "(pyval \<Rightarrow> string) \<Rightarrow> string \<Rightarrow> pyval \<Rightarrow> pydict \<Rightarrow> (string \<times> pyval) list" where
  "search_assignments py_str query place_id res =
     [(''places_query'', PStr query),
      (''places_place_id'', place_id),
      (''places_name'', dict_get res ''name'' (PStr '''')),
      (''places_formatted_address'', dict_get res ''formatted_address'' (PStr '''')),
      (''places_business_status'', dict_get res ''business_status'' (PStr '''')),
      (''places_rating'', PStr (py_str (dict_get res ''rating'' (PStr '''')))),
      (''places_user_ratings_total'', PStr (py_str (dict_get res ''user_ratings_total'' (PStr ''''))))]"

text \<open>The assignments of lines 151 to 163, from a details result that is true.\<close>

definition details_assignments ::
  "(pyval \<Rightarrow> string) \<Rightarrow> pyval \<Rightarrow> py_error + (string \<times> pyval) list" where
  "details_assignments py_str details =
     (case details of
        PDict det \<Rightarrow>
          (case py_get (dict_get det ''geometry'' (PDict [])) ''location'' (PDict []) of
             Inl e \<Rightarrow> Inl e
           | Inr location \<Rightarrow>
          (case py_get location ''lat'' (PStr '''') of
             Inl e \<Rightarrow> Inl e
           | Inr lat \<Rightarrow>
          (case py_get location ''lng'' (PStr '''') of
             Inl e \<Rightarrow> Inl e
           | Inr lng \<Rightarrow>
          (case join_iter '',''
                  (if truthy (dict_get det ''types'' (PList [])) then dict_get det ''types'' (PList [])
                   else PList []) of
             Inl e \<Rightarrow> Inl e
           | Inr types \<Rightarrow>
               Inr [(''places_lat'', PStr (py_str lat)),
                    (''places_lng'', PStr (py_str lng)),
                    (''places_website'', dict_get det ''website'' (PStr '''')),
                    (''places_phone'', dict_get det ''formatted_phone_number'' (PStr '''')),
                    (''places_intl_phone'', dict_get det ''international_phone_number'' (PStr '''')),
                    (''places_types'', PStr types),
                    (''places_url'', dict_get det ''url'' (PStr '''')),
                    (''places_details_name'', dict_get det ''name'' (PStr '''')),
                    (''places_details_address'', dict_get det ''formatted_address'' (PStr '''')),
                    (''places_details_status'', dict_get det ''business_status'' (PStr '''')),
                    (''places_details_rating'', PStr (py_str (dict_get det ''rating'' (PStr '''')))),
                    (''places_details_user_ratings_total'',
                       PStr (py_str (dict_get det ''user_ratings_total'' (PStr ''''))))]))))
      | _ \<Rightarrow> Inl AttributeError)"

text \<open>
  \<^verbatim>\<open>enrich_row\<close>: the assignments it performs on the row and the calls made. A result
  that is true and is not a dictionary has no \<^verbatim>\<open>get\<close>.
\<close>

definition enrich_row_steps ::
  "(pyval \<Rightarrow> string) \<Rightarrow> api \<Rightarrow> call list \<Rightarrow> pydict
     \<Rightarrow> py_error + ((string \<times> pyval) list \<times> call list)" where
  "enrich_row_steps py_str api calls row =
     (case build_query row of
        Inl e \<Rightarrow> Inl e
      | Inr query \<Rightarrow>
     (case places_text_search api calls query of
        Inl e \<Rightarrow> Inl e
      | Inr (result, calls1) \<Rightarrow>
          if \<not> truthy result then
            Inr ([(''places_query'', PStr query), (''places_status'', PStr ''NO_MATCH'')], calls1)
          else
            (case result of
               PDict res \<Rightarrow>
                 (let place_id = dict_get res ''place_id'' (PStr '''')
                  in case (if truthy place_id then places_details api calls1 place_id
                           else Inr (PNone, calls1)) of
                       Inl e \<Rightarrow> Inl e
                     | Inr (details, calls2) \<Rightarrow>
                         if truthy details then
                           (case details_assignments py_str details of
                              Inl e \<Rightarrow> Inl e
                            | Inr ds \<Rightarrow>
                                Inr (search_assignments py_str query place_id res @ ds
                                       @ [(''places_status'', PStr ''OK'')], calls2))
                         else
                           Inr (search_assignments py_str query place_id res
                                  @ [(''places_status'', PStr ''NO_DETAILS'')], calls2))
             | _ \<Rightarrow> Inl AttributeError)))"

definition enrich_row ::
  "(pyval \<Rightarrow> string) \<Rightarrow> api \<Rightarrow> call list \<Rightarrow> pydict \<Rightarrow> py_error + (pydict \<times> call list)" where
  "enrich_row py_str api calls row =
     (case enrich_row_steps py_str api calls row of
        Inl e \<Rightarrow> Inl e
      | Inr (ws, calls') \<Rightarrow> Inr (assign ws row, calls'))"

section \<open>Batch Orchestrator (enrich_providers.py, main)\<close>

text \<open>
  The state of the loop of \<^verbatim>\<open>main\<close>: the cache, the output rows, the remote calls
  made so far and, for each record processed, the item assignments made on it.
\<close>

record state =
  cache :: "(string \<times> pydict) list"
  enriched_rows :: "pydict list"
  calls :: "call list"
  writes :: "(string \<times> pyval) list list"

definition init_state :: state where
  "init_state = \<lparr>cache = [], enriched_rows = [], calls = [], writes = []\<rparr>"

text \<open>
  One iteration. On a hit, \<^verbatim>\<open>row.update(cached_fields)\<close> assigns every cached item and
  \<^verbatim>\<open>row["places_status"] = "CACHED"\<close> follows. An exception leaves the loop.
\<close>

definition process_row :: "(pyval \<Rightarrow> string) \<Rightarrow> api \<Rightarrow> state \<Rightarrow> pydict \<Rightarrow> py_error + state" where
  "process_row py_str api st row =
     (case normalize_address_key row of
        Inl e \<Rightarrow> Inl e
      | Inr cache_key \<Rightarrow>
          (case (if cache_key \<noteq> [] then map_of (cache st) cache_key else None) of
             Some cached_fields \<Rightarrow>
               (let ws = cached_fields @ [(''places_status'', PStr ''CACHED'')]
                in Inr (st\<lparr>enriched_rows := enriched_rows st @ [assign ws row],
                           writes := writes st @ [ws]\<rparr>))
           | None \<Rightarrow>
               (case enrich_row_steps py_str api (calls st) row of
                  Inl e \<Rightarrow> Inl e
                | Inr (ws, calls') \<Rightarrow>
                    (let enriched = assign ws row
                     in Inr (st\<lparr>cache := (if cache_key \<noteq> []
                                           then AList.update cache_key (extract_places_fields enriched) (cache st)
                                           else cache st),
                                enriched_rows := enriched_rows st @ [enriched],
                                calls := calls',
                                writes := writes st @ [ws]\<rparr>)))))"

fun main_loop :: "(pyval \<Rightarrow> string) \<Rightarrow> api \<Rightarrow> state \<Rightarrow> pydict list \<Rightarrow> py_error + state" where
  "main_loop py_str api st [] = Inr st"
| "main_loop py_str api st (row # rows) =
     (case process_row py_str api st row of
        Inl e \<Rightarrow> Inl e
      | Inr st' \<Rightarrow> main_loop py_str api st' rows)"

text \<open>
  \<^verbatim>\<open>sorted({k for row in enriched_rows for k in row.keys()})\<close>: the header that
  \<^verbatim>\<open>write_enriched\<close> receives. Strings are ordered by code point.
\<close>

definition fieldnames :: "pydict list \<Rightarrow> string list" where
  "fieldnames rows = sort (remdups (concat (map (map fst) rows)))"

text \<open>
  \<^verbatim>\<open>write_enriched\<close>: the header line and one line per row with the cells
  \<^verbatim>\<open>row.get(k, "")\<close> in header order (a table of cells, before CSV quoting).
\<close>

definition write_enriched :: "pydict list \<Rightarrow> string list \<Rightarrow> string list \<times> pyval list list" where
  "write_enriched rows names = (names, map (\<lambda>row. map (\<lambda>k. dict_get row k (PStr '''')) names) rows)"

text \<open>The ten columns of \<^verbatim>\<open>write_normalized_csv\<close> (mn_ccap_scraper.py).\<close>

definition out_fields :: "string list" where
  "out_fields = [''license_number'', ''provider_name'', ''doing_business_as'', ''license_type'',
                 ''status'', ''address'', ''city'', ''state'', ''zip'', ''county'']"

section \<open>Column Mapper (mn_ccap_scraper.py, parse_providers)\<close>

text \<open>
  A row of \<^verbatim>\<open>csv.DictReader\<close>: under a column name, a string, or \<^verbatim>\<open>None\<close> where
  the line was shorter than the header.
\<close>

type_synonym csv_row = "(string \<times> string option) list"

definition column_map :: "(string \<times> string) list" where
  "column_map =
     [(''LicenseNumber'', ''license_number''),
      (''License #'', ''license_number''),
      (''License Holder Name'', ''provider_name''),
      (''Provider Name'', ''provider_name''),
      (''Doing Business As'', ''doing_business_as''),
      (''DBA Name'', ''doing_business_as''),
      (''License Type'', ''license_type''),
      (''City'', ''city''),
      (''State'', ''state''),
      (''Zip'', ''zip''),
      (''County'', ''county''),
      (''Status'', ''status''),
      (''License Status'', ''status''),
      (''Address'', ''address''),
      (''Street Address'', ''address'')]"

text \<open>
  The loop over \<^verbatim>\<open>column_map.items()\<close>:
  \<^verbatim>\<open>if src_col in row and row[src_col]: normalized[norm_col] = row[src_col].strip()\<close>.
\<close>

fun map_columns :: "csv_row \<Rightarrow> (string \<times> string) list \<Rightarrow> pydict \<Rightarrow> pydict" where
  "map_columns row [] normalized = normalized"
| "map_columns row ((src_col, norm_col) # cm) normalized =
     (case map_of row src_col of
        Some (Some v) \<Rightarrow>
          (if v \<noteq> [] then map_columns row cm (AList.update norm_col (PStr (py_strip v)) normalized)
           else map_columns row cm normalized)
      | _ \<Rightarrow> map_columns row cm normalized)"

text \<open>\<^verbatim>\<open>d.setdefault(k, v)\<close>.\<close>

definition setdefault :: "string \<Rightarrow> pyval \<Rightarrow> pydict \<Rightarrow> pydict" where
  "setdefault k v d = (case map_of d k of None \<Rightarrow> d @ [(k, v)] | Some _ \<Rightarrow> d)"

definition raw_value :: "csv_row \<Rightarrow> pyval" where
  "raw_value row = PDict (map (\<lambda>(k, v). (k, case v of None \<Rightarrow> PNone | Some s \<Rightarrow> PStr s)) row)"

text \<open>The body of the loop over the rows: one canonical record.\<close>

definition normalize_row :: "csv_row \<Rightarrow> pydict" where
  "normalize_row row =
     (let normalized = map_columns row column_map [(''raw_row'', raw_value row)];
          normalized = setdefault ''license_number'' (PStr '''') normalized;
          normalized = setdefault ''provider_name'' (PStr '''') normalized;
          normalized = setdefault ''license_type'' (PStr '''') normalized;
          normalized = setdefault ''city'' (PStr '''') normalized;
          normalized = setdefault ''state'' (PStr ''MN'') normalized;
          normalized = setdefault ''zip'' (PStr '''') normalized;
          normalized = setdefault ''county'' (PStr '''') normalized;
          normalized = setdefault ''status'' (PStr '''') normalized;
          normalized = setdefault ''address'' (PStr '''') normalized
      in normalized)"

definition parse_providers :: "csv_row list \<Rightarrow> pydict list" where
  "parse_providers rows = map normalize_row rows"

text \<open>
  The entries of a mapping table for the canonical field \<open>f\<close> whose source column is
  present in the row with a non-empty value, in table order, and the cell of a column.
\<close>

definition cell :: "csv_row \<Rightarrow> string \<Rightarrow> string" where
  "cell row c = (case map_of row c of Some (Some v) \<Rightarrow> v | _ \<Rightarrow> [])"

definition sources :: "csv_row \<Rightarrow> (string \<times> string) list \<Rightarrow> string \<Rightarrow> string list" where
  "sources row cm f = map fst (filter (\<lambda>(src_col, norm_col). norm_col = f \<and> cell row src_col \<noteq> []) cm)"

section \<open>HTML Record Extractor (mn_ccap_scraper.py, parse_providers_html)\<close>

text \<open>
  The patterns of the extractor, as Python's \<^verbatim>\<open>re\<close> parses them: a character test,
  sequence, the greedy \<^verbatim>\<open>?\<close> and \<^verbatim>\<open>*\<close>, the lazy \<^verbatim>\<open>*?\<close> and a numbered group.
\<close>

datatype rx =
    Eps
  | Chr "char \<Rightarrow> bool"
  | Seq rx rx
  | Opt rx
  | Star rx
  | Lazy rx
  | Grp nat rx

type_synonym groups = "(nat \<times> string) list"

text \<open>
  Backtracking search: all the ways a pattern matches a prefix of the text, each with the
  rest of the text and the groups, in the order in which \<^verbatim>\<open>re\<close> tries them. An
  iteration of a star must consume a character; the first argument bounds the number of
  iterations and is the length of the text where the search starts.
\<close>

fun rx_match :: "nat \<Rightarrow> rx \<Rightarrow> string \<times> groups \<Rightarrow> (string \<times> groups) list" where
  "rx_match n Eps sc = [sc]"
| "rx_match n (Chr p) (s, g) = (case s of [] \<Rightarrow> [] | x # xs \<Rightarrow> if p x then [(xs, g)] else [])"
| "rx_match n (Seq a b) sc = concat (map (rx_match n b) (rx_match n a sc))"
| "rx_match n (Opt a) sc = rx_match n a sc @ [sc]"
| "rx_match n (Grp i a) (s, g) =
     map (\<lambda>(s', g'). (s', AList.update i (take (length s - length s') s) g')) (rx_match n a (s, g))"
| "rx_match 0 (Star a) sc = [sc]"
| "rx_match (Suc n) (Star a) (s, g) =
     concat (map (rx_match n (Star a))
               (filter (\<lambda>(s', g'). length s' < length s) (rx_match (Suc n) a (s, g))))
     @ [(s, g)]"
| "rx_match 0 (Lazy a) sc = [sc]"
| "rx_match (Suc n) (Lazy a) (s, g) =
     (s, g) # concat (map (rx_match n (Lazy a))
                        (filter (\<lambda>(s', g'). length s' < length s) (rx_match (Suc n) a (s, g))))"

text \<open>
  \<^verbatim>\<open>re.match\<close> (the length of the match and its groups), \<^verbatim>\<open>re.search\<close>,
  \<^verbatim>\<open>re.sub\<close> and \<^verbatim>\<open>finditer\<close> for patterns that match no empty string, as all
  patterns here.
\<close>

definition re_match :: "rx \<Rightarrow> string \<Rightarrow> (nat \<times> groups) option" where
  "re_match r s =
     (case rx_match (length s) r (s, []) of
        [] \<Rightarrow> None
      | (s', g) # _ \<Rightarrow> Some (length s - length s', g))"

fun re_search :: "rx \<Rightarrow> string \<Rightarrow> groups option" where
  "re_search r [] = map_option snd (re_match r [])"
| "re_search r (x # xs) =
     (case re_match r (x # xs) of Some (n, g) \<Rightarrow> Some g | None \<Rightarrow> re_search r xs)"

function re_sub :: "rx \<Rightarrow> string \<Rightarrow> string \<Rightarrow> string" where
  "re_sub r repl [] = []"
| "re_sub r repl (x # xs) =
     (case re_match r (x # xs) of
        None \<Rightarrow> x # re_sub r repl xs
      | Some (n, g) \<Rightarrow>
          if 0 < n then repl @ re_sub r repl (drop n (x # xs)) else x # re_sub r repl xs)"
  by pat_completeness auto
termination
  by (relation "measure (\<lambda>(r, repl, s). length s)") auto

function finditer :: "rx \<Rightarrow> string \<Rightarrow> groups list" where
  "finditer r [] = []"
| "finditer r (x # xs) =
     (case re_match r (x # xs) of
        None \<Rightarrow> finditer r xs
      | Some (n, g) \<Rightarrow> if 0 < n then g # finditer r (drop n (x # xs)) else finditer r xs)"
  by pat_completeness auto
termination
  by (relation "measure (\<lambda>(r, s). length s)") auto

definition seqs :: "rx list \<Rightarrow> rx" where
  "seqs rs = foldr Seq rs Eps"

definition lit :: "string \<Rightarrow> rx" where
  "lit s = seqs (map (\<lambda>c. Chr (\<lambda>x. x = c)) s)"

definition ilit :: "string \<Rightarrow> rx" where
  "ilit s = seqs (map (\<lambda>c. Chr (\<lambda>x. py_lower_char x = py_lower_char c)) s)"

definition plus :: "rx \<Rightarrow> rx" where
  "plus a = Seq a (Star a)"

text \<open>
  The pattern strings of the source are raw strings in which every backslash is doubled:
  \<^verbatim>\<open>r"<br\\s*/?>"\<close> is the pattern of a backslash character followed by any number of
  letters \<^verbatim>\<open>s\<close>, and \<^verbatim>\<open>(\\d{5})\<close> that of a backslash followed by five letters
  \<^verbatim>\<open>d\<close>. Under \<^verbatim>\<open>IGNORECASE\<close> a literal matches in both cases.
\<close>

definition backslash :: rx where
  "backslash = Chr (\<lambda>x. x = CHR 0x5C)"

definition br_rx :: rx where
  "br_rx = seqs [ilit ''<br'', backslash, Star (ilit ''s''), Opt (lit ''/''), lit ''>'']"

definition tag_rx :: rx where
  "tag_rx = seqs [lit ''<'', plus (Chr (\<lambda>x. x \<noteq> CHR ''>'')), lit ''>'']"


definition not_gt :: rx where
  "not_gt = Chr (\<lambda>x. x \<noteq> CHR ''>'')"

definition any_char :: rx where
  "any_char = Chr (\<lambda>x. True)"

definition not_newline :: rx where
  "not_newline = Chr (\<lambda>x. x \<noteq> CHR 0x0A)"

definition in_range :: "char \<Rightarrow> char \<Rightarrow> rx" where
  "in_range lo hi = Chr (\<lambda>x. of_char lo \<le> (of_char x :: nat) \<and> (of_char x :: nat) \<le> of_char hi)"

definition city_rx :: rx where
  "city_rx =
     seqs [Grp 1 (Lazy not_newline), lit '','', backslash, Star (lit ''s''),
           Grp 2 (Seq (in_range CHR ''A'' CHR ''Z'') (in_range CHR ''A'' CHR ''Z'')),
           backslash, plus (lit ''s''),
           Grp 3 (seqs [backslash, lit ''ddddd''])]"

definition license_number_rx :: rx where
  "license_number_rx =
     seqs [lit ''License number:'', backslash, Star (lit ''s''),
           Grp 1 (plus (Chr (\<lambda>x. (py_isalnum x \<and> (of_char x :: nat) < 128) \<or> x = CHR ''-'')))]"

definition license_type_rx :: rx where
  "license_type_rx =
     seqs [lit ''Type of service:'', backslash, Star (lit ''s''), Grp 1 (plus not_newline)]"

definition listing_rx :: rx where
  \<open>listing_rx =
     seqs [ilit ''<table border="0" class="LicTable1">'', Lazy any_char,
           ilit ''class="LicTitle1"'', Star not_gt, lit ''>'', backslash, Star (ilit ''s''),
           ilit ''<a'', Star not_gt, lit ''>'', Grp 1 (Lazy any_char), ilit ''</a>'', Lazy any_char,
           ilit ''class="LicStatus1"'', Star not_gt, lit ''>'', backslash, Star (ilit ''s''),
           Grp 2 (Lazy any_char), ilit ''</td>'', Lazy any_char,
           ilit ''<table'', backslash, plus (ilit ''s''), ilit ''border="0"'', backslash,
           plus (ilit ''s''), ilit ''class="LicTable">'', Lazy any_char,
           ilit ''class="LicContentL"'', Star not_gt, lit ''>'', backslash, Star (ilit ''s''),
           Grp 3 (Lazy any_char), ilit ''</td>'', Lazy any_char,
           ilit ''class="LicContentR"'', Star not_gt, lit ''>'', backslash, Star (ilit ''s''),
           Grp 4 (Lazy any_char), ilit ''</td>'']\<close>

text \<open>
  \<^verbatim>\<open>str.splitlines\<close>, \<^verbatim>\<open>str.endswith\<close> and \<^verbatim>\<open>line.replace(old, "")\<close>.
\<close>

definition is_linebreak :: "char \<Rightarrow> bool" where
  "is_linebreak c =
     (let n = (of_char c :: nat) in (10 \<le> n \<and> n \<le> 13) \<or> (28 \<le> n \<and> n \<le> 30) \<or> n = 133)"

fun splitlines_acc :: "string \<Rightarrow> string \<Rightarrow> string list" where
  "splitlines_acc cur [] = (if cur = [] then [] else [cur])"
| "splitlines_acc cur [c] = (if is_linebreak c then [cur] else [cur @ [c]])"
| "splitlines_acc cur (c # d # cs) =
     (if c = CHR 0x0D \<and> d = CHR 0x0A then cur # splitlines_acc [] cs
      else if is_linebreak c then cur # splitlines_acc [] (d # cs)
      else splitlines_acc (cur @ [c]) (d # cs))"

definition py_splitlines :: "string \<Rightarrow> string list" where
  "py_splitlines s = splitlines_acc [] s"

definition endswith :: "string \<Rightarrow> string \<Rightarrow> bool" where
  "endswith s suffix = (length suffix \<le> length s \<and> drop (length s - length suffix) s = suffix)"

fun remove_all :: "string \<Rightarrow> string \<Rightarrow> string" where
  "remove_all old [] = []"
| "remove_all old (c # cs) =
     (if old \<noteq> [] \<and> take (length old) (c # cs) = old
      then remove_all old (drop (length old - 1) cs)
      else c # remove_all old cs)"

definition group :: "groups \<Rightarrow> nat \<Rightarrow> string" where
  "group g i = (case map_of g i of None \<Rightarrow> [] | Some s \<Rightarrow> s)"

text \<open>
  \<^verbatim>\<open>_clean_html_block\<close> and the body of the loop of \<^verbatim>\<open>parse_providers_html\<close> over
  the matches; \<^verbatim>\<open>html.unescape\<close> is a parameter.
\<close>

definition clean_html_block :: "(string \<Rightarrow> string) \<Rightarrow> string \<Rightarrow> string list" where
  "clean_html_block unescape text =
     (let text = re_sub br_rx [CHR 0x0A] text;
          text = re_sub tag_rx [] text;
          text = unescape text
      in map py_strip (filter (\<lambda>line. py_strip line \<noteq> []) (py_splitlines text)))"

definition html_record :: "(string \<Rightarrow> string) \<Rightarrow> groups \<Rightarrow> pydict" where
  "html_record unescape m =
     (let provider_name = py_strip (unescape (group m 1));
          status = py_strip (unescape (group m 2));
          left_block = group m 3;
          right_block = group m 4;
          left_lines = clean_html_block unescape left_block;
          right_text = unescape (re_sub tag_rx [] right_block);
          address = (case left_lines of [] \<Rightarrow> [] | a # _ \<Rightarrow> a);
          (city, state, zip_code) =
            (case left_lines of
               _ # city_state_zip # _ \<Rightarrow>
                 (case re_match city_rx city_state_zip of
                    Some (n, g) \<Rightarrow> (py_strip (group g 1), group g 2, group g 3)
                  | None \<Rightarrow> ([], [], []))
             | _ \<Rightarrow> ([], [], []));
          county = fold (\<lambda>line county. if endswith line ''County''
                                          then py_strip (remove_all ''County'' line) else county)
                     (drop 2 left_lines) [];
          license_number = (case re_search license_number_rx right_text of
                              Some g \<Rightarrow> py_strip (group g 1) | None \<Rightarrow> []);
          license_type = (case re_search license_type_rx right_text of
                            Some g \<Rightarrow> py_strip (group g 1) | None \<Rightarrow> [])
      in [(''raw_row'', PDict [(''left_block'', PStr left_block), (''right_block'', PStr right_block)]),
          (''license_number'', PStr license_number),
          (''provider_name'', PStr provider_name),
          (''license_type'', PStr license_type),
          (''status'', PStr status),
          (''address'', PStr address),
          (''city'', PStr city),
          (''state'', PStr (if state \<noteq> [] then state else ''MN'')),
          (''zip'', PStr zip_code),
          (''county'', PStr county)])"

definition parse_providers_html :: "(string \<Rightarrow> string) \<Rightarrow> string \<Rightarrow> pydict list" where
  "parse_providers_html unescape html_text = map (html_record unescape) (finditer listing_rx html_text)"

section \<open>Inputs of the examples\<close>

text \<open>
  An instance of the parameter \<^verbatim>\<open>py_str\<close> for the examples, Python's \<^verbatim>\<open>str\<close> on
  strings, \<^verbatim>\<open>None\<close> and booleans; no other value reaches it in the examples.
\<close>

fun str_basic :: "pyval \<Rightarrow> string" where
  "str_basic (PStr s) = s"
| "str_basic PNone = ''None''"
| "str_basic (PBool b) = (if b then ''True'' else ''False'')"
| "str_basic _ = []"

text \<open>A service that finds nothing, and one that finds a place and has no details for it.\<close>

definition api_no_results :: api where
  "api_no_results cs c = Inr (PDict [(''status'', PStr ''ZERO_RESULTS''), (''results'', PList [])])"

definition api_no_details :: api where
  "api_no_details cs c =
     (case c of
        TextSearch q \<Rightarrow>
          Inr (PDict [(''status'', PStr ''OK''),
                      (''results'', PList [PDict [(''place_id'', PStr ''p1''),
                                                  (''name'', PStr ''Sunny Days'')]])])
      | Details p \<Rightarrow> Inr (PDict [(''status'', PStr ''NOT_FOUND'')]))"

text \<open>The number of assignments to a key in a list of item assignments.\<close>

definition assigned_count :: "string \<Rightarrow> (string \<times> pyval) list \<Rightarrow> nat" where
  "assigned_count k ws = length (filter (\<lambda>(k', v). k' = k) ws)"

fun writes_of :: "py_error + state \<Rightarrow> (string \<times> pyval) list list" where
  "writes_of (Inr st) = writes st"
| "writes_of (Inl e) = []"

fun rows_of :: "py_error + state \<Rightarrow> pydict list" where
  "rows_of (Inr st) = enriched_rows st"
| "rows_of (Inl e) = []"

fun calls_of :: "py_error + state \<Rightarrow> call list" where
  "calls_of (Inr st) = calls st"
| "calls_of (Inl e) = []"

text \<open>
  Two records at the same address, and the states of the loop after the first and after both of them
  were processed with the service that finds nothing.
\<close>

definition row_a :: pydict where
  "row_a = str_row [(''provider_name'', ''A''), (''city'', ''Duluth'')]"

definition row_b :: pydict where
  "row_b = str_row [(''provider_name'', ''B''), (''city'', ''Duluth'')]"

definition state_a :: state where
  "state_a =
     \<lparr>cache = [(''duluth'', [(''places_query'', PStr ''A, Duluth''),
                             (''places_status'', PStr ''NO_MATCH'')])],
      enriched_rows = [[(''provider_name'', PStr ''A''), (''city'', PStr ''Duluth''),
                        (''places_query'', PStr ''A, Duluth''),
                        (''places_status'', PStr ''NO_MATCH'')]],
      calls = [TextSearch ''A, Duluth''],
      writes = [[(''places_query'', PStr ''A, Duluth''), (''places_status'', PStr ''NO_MATCH'')]]\<rparr>"

definition state_ab :: state where
  "state_ab =
     \<lparr>cache = [(''duluth'', [(''places_query'', PStr ''A, Duluth''),
                             (''places_status'', PStr ''NO_MATCH'')])],
      enriched_rows = [[(''provider_name'', PStr ''A''), (''city'', PStr ''Duluth''),
                        (''places_query'', PStr ''A, Duluth''),
                        (''places_status'', PStr ''NO_MATCH'')],
                       [(''provider_name'', PStr ''B''), (''city'', PStr ''Duluth''),
                        (''places_query'', PStr ''A, Duluth''),
                        (''places_status'', PStr ''CACHED'')]],
      calls = [TextSearch ''A, Duluth''],
      writes = [[(''places_query'', PStr ''A, Duluth''), (''places_status'', PStr ''NO_MATCH'')],
                [(''places_query'', PStr ''A, Duluth''), (''places_status'', PStr ''NO_MATCH''),
                 (''places_status'', PStr ''CACHED'')]]\<rparr>"

text \<open>
  \<^verbatim>\<open>html.unescape\<close> on a text without character references, and a results page with
  one listing in the layout that the patterns describe.
\<close>

definition no_entities :: "string \<Rightarrow> string" where
  "no_entities s = s"

definition listing_page :: string where
  \<open>listing_page =
     ''<table border="0" class="LicTable1"><tr><td class="LicTitle1"><a href="Details.aspx?l=1">''
     @ ''Sunny Days Daycare</a></td><td class="LicStatus1">Active</td></tr></table>''
     @ ''<table border="0" class="LicTable"><tr><td class="LicContentL">''
     @ ''123 Main St<br>Duluth, MN 55802<br>St. Louis County</td>''
     @ ''<td class="LicContentR">License number: 1234567<br>Type of service: Child Care Center</td>''
     @ ''</tr></table>''\<close>



text \<open>A search response with status \<^verbatim>\<open>OK\<close> and an empty list of results.\<close>

definition api_ok_empty :: api where
  "api_ok_empty cs c = Inr (PDict [(''status'', PStr ''OK''), (''results'', PList [])])"

section \<open>Characters that a pattern demands\<close>

text \<open>A pattern needs a character when every text it matches contains that character.\<close>

fun needs :: "char \<Rightarrow> rx \<Rightarrow> bool" where
  "needs c (Chr p) = (\<forall>x. p x \<longrightarrow> x = c)"
| "needs c (Seq a b) = (needs c a \<or> needs c b)"
| "needs c (Grp i a) = needs c a"
| "needs c _ = False"

section \<open>The invariant of the cache\<close>

text \<open>
  Every entry of the cache is the \<^verbatim>\<open>places_\<close> items of a record of the output, and
  holds a \<^verbatim>\<open>places_status\<close> item.
\<close>

definition cache_inv :: "state \<Rightarrow> bool" where
  "cache_inv st =
     (\<forall>k cf. map_of (cache st) k = Some cf \<longrightarrow>
        ''places_status'' \<in> fst ` set cf
        \<and> (\<exists>r \<in> set (enriched_rows st). cf = extract_places_fields r))"


section \<open>Properties of the address key\<close>

lemma isspace_space: "py_isspace (CHR '' '')"
  by (simp add: py_isspace_def)

lemma collapse_ws_space:
  "py_isspace c \<Longrightarrow>
   collapse_ws (c # cs) = CHR '' '' # dropWhile (\<lambda>c. c = CHR '' '') (collapse_ws cs)"
proof (induction cs arbitrary: c)
  case Nil
  then show ?case by simp
next
  case (Cons d cs)
  show ?case
  proof (cases "py_isspace d")
    case True
    with Cons show ?thesis by simp
  next
    case False
    then have "d \<noteq> CHR '' ''" using isspace_space by auto
    with False Cons.prems show ?thesis by (cases cs) auto
  qed
qed

lemma collapse_ws_word: "\<not> py_isspace c \<Longrightarrow> collapse_ws (c # cs) = c # collapse_ws cs"
  by (cases cs) auto

lemma split_acc_nonempty: "[] \<notin> set (split_acc w s)"
  by (induction s arbitrary: w) auto

lemma py_join_Nil_iff: "[] \<notin> set ws \<Longrightarrow> py_join sep ws = [] \<longleftrightarrow> ws = []"
  by (induction sep ws rule: py_join.induct) auto

lemma py_join_Cons: "py_join sep (w # ws) = (if ws = [] then w else w @ sep @ py_join sep ws)"
  by (cases ws) auto

lemma strip_spaces_word:
  assumes "w \<noteq> []" "\<forall>c\<in>set w. c \<noteq> CHR '' ''"
  shows "strip_spaces (w @ x) = w @ rev (dropWhile (\<lambda>c. c = CHR '' '') (rev x))"
proof -
  from assms obtain a w' where w: "w = a # w'" by (cases w) auto
  with assms have a: "a \<noteq> CHR '' ''" by simp
  have "dropWhile (\<lambda>c. c = CHR '' '') (w @ x) = w @ x" using w a by simp
  moreover have "dropWhile (\<lambda>c. c = CHR '' '') (rev x @ rev w)
      = dropWhile (\<lambda>c. c = CHR '' '') (rev x) @ rev w"
    using assms by (cases "rev w") (auto simp: dropWhile_append)
  ultimately show ?thesis by (simp add: strip_spaces_def)
qed

lemma strip_spaces_lead: "strip_spaces (CHR '' '' # x) = strip_spaces x"
  by (simp add: strip_spaces_def)

lemma strip_spaces_dropWhile:
  "strip_spaces (dropWhile (\<lambda>c. c = CHR '' '') x) = strip_spaces x"
  by (simp add: strip_spaces_def)

lemma rstrip_space_Cons:
  "rev (dropWhile (\<lambda>c. c = CHR '' '') (rev (CHR '' '' # x)))
    = (if rev (dropWhile (\<lambda>c. c = CHR '' '') (rev x)) = [] then []
       else CHR '' '' # rev (dropWhile (\<lambda>c. c = CHR '' '') (rev x)))"
  by (auto simp: dropWhile_append)

text \<open>
  Joining the words of \<^verbatim>\<open>split()\<close> with single spaces is collapsing the runs of
  whitespace and trimming. The statement is generalised over the word read so far.
\<close>

lemma split_acc_collapse:
  "\<forall>c\<in>set w. \<not> py_isspace c \<Longrightarrow>
   py_join '' '' (split_acc w s) = strip_spaces (w @ collapse_ws s)"
proof (induction s arbitrary: w)
  case Nil
  have "\<forall>c\<in>set w. c \<noteq> CHR '' ''" using Nil isspace_space by auto
  then show ?case
    using strip_spaces_word [of w "[]"] by (cases "w = []") (auto simp: strip_spaces_def)
next
  case (Cons c cs)
  have nosp: "\<forall>c\<in>set w. c \<noteq> CHR '' ''" using Cons.prems isspace_space by auto
  show ?case
  proof (cases "py_isspace c")
    case False
    then have "\<forall>x\<in>set (w @ [c]). \<not> py_isspace x" using Cons.prems by auto
    from Cons.IH [OF this] False show ?thesis by (simp add: collapse_ws_word)
  next
    case True
    have IH: "py_join '' '' (split_acc [] cs) = strip_spaces (collapse_ws cs)"
      using Cons.IH [of "[]"] by simp
    show ?thesis
    proof (cases "w = []")
      case True
      with \<open>py_isspace c\<close> IH show ?thesis
        by (simp add: collapse_ws_space strip_spaces_lead strip_spaces_dropWhile)
    next
      case False
      let ?D = "dropWhile (\<lambda>c. c = CHR '' '') (collapse_ws cs)"
      let ?Z = "rev (dropWhile (\<lambda>c. c = CHR '' '') (rev ?D))"
      have Z: "?Z = py_join '' '' (split_acc [] cs)"
        using IH by (simp add: strip_spaces_def)
      have "strip_spaces (w @ collapse_ws (c # cs))
          = w @ (if ?Z = [] then [] else CHR '' '' # ?Z)"
        using strip_spaces_word [OF False nosp] \<open>py_isspace c\<close>
        by (simp only: collapse_ws_space rstrip_space_Cons)
      moreover have "py_join '' '' (split_acc w (c # cs))
          = (if split_acc [] cs = [] then w
             else w @ '' '' @ py_join '' '' (split_acc [] cs))"
        using False \<open>py_isspace c\<close> by (simp add: py_join_Cons)
      moreover have "(py_join '' '' (split_acc [] cs) = []) = (split_acc [] cs = [])"
        by (rule py_join_Nil_iff [OF split_acc_nonempty])
      ultimately show ?thesis using Z by auto
    qed
  qed
qed

lemma clean_key_spec: "clean_key (py_lower s) = spec_normalize s"
  using split_acc_collapse [of "[]"]
  by (simp add: clean_key_def spec_normalize_def py_split_def)

lemma dict_get_str_row: "dict_get (str_row r) k (PStr []) = PStr (field r k)"
  by (induction r) (auto simp: dict_get_def str_row_def field_def)

lemma normalize_address_key_str_row:
  "normalize_address_key (str_row r) = Inr (spec_address_key r)"
  by (simp add: normalize_address_key_def dict_get_str_row join_vals_def clean_key_spec
      spec_address_key_def spec_composite_def Let_def)

lemma same_address_same_key:
  assumes "field r' ''address'' = field r ''address''" "field r' ''city'' = field r ''city''"
    "field r' ''state'' = field r ''state''" "field r' ''zip'' = field r ''zip''"
    "spec_composite r \<noteq> [] \<or> field r' ''provider_name'' = field r ''provider_name''"
  shows "normalize_address_key (str_row r') = normalize_address_key (str_row r)"
proof -
  have "spec_composite r' = spec_composite r"
    using assms(1-4) by (simp add: spec_composite_def)
  with assms(5) show ?thesis
    by (auto simp: normalize_address_key_str_row spec_address_key_def)
qed

lemma sunny_days_key:
  "normalize_address_key
     (str_row [(''provider_name'', ''Sunny Days Daycare''), (''address'', ''''),
               (''city'', ''Duluth''), (''state'', ''MN''), (''zip'', ''55802'')])
   = Inr ''duluth mn 55802''"
  by code_simp

text \<open>
  C3 (as stated): two records with identical address, city, state and zip yield the same
  key. The two records below have the same (absent) address fields and different names;
  their composite is empty, the key falls back to the name, and the keys differ.
\<close>

theorem same_address_key_counterexample:
  "field [(''provider_name'', ''A'')] ''address'' = field [(''provider_name'', ''B'')] ''address''
   \<and> field [(''provider_name'', ''A'')] ''city'' = field [(''provider_name'', ''B'')] ''city''
   \<and> field [(''provider_name'', ''A'')] ''state'' = field [(''provider_name'', ''B'')] ''state''
   \<and> field [(''provider_name'', ''A'')] ''zip'' = field [(''provider_name'', ''B'')] ''zip''
   \<and> normalize_address_key (str_row [(''provider_name'', ''A'')]) = Inr ''a''
   \<and> normalize_address_key (str_row [(''provider_name'', ''B'')]) = Inr ''b''
   \<and> normalize_address_key (str_row [(''provider_name'', ''A'')])
       \<noteq> normalize_address_key (str_row [(''provider_name'', ''B'')])"
  by code_simp

text \<open>
  C3 (amended): for every record with string fields, the address key is the key of the
  reference definition: the address, city, state and zip values joined with single
  spaces, lower-cased, restricted to alphanumeric characters and whitespace, runs of
  whitespace collapsed to one space and the ends trimmed, and the provider name
  normalized the same way when that composite is empty. Two records with identical
  address, city, state and zip yield the same key when their composite is non-empty or
  their provider names are identical too. The record of Sunny Days Daycare in Duluth
  yields the key \<^verbatim>\<open>duluth mn 55802\<close>.
\<close>

theorem address_key_matches_spec:
  "normalize_address_key (str_row r) = Inr (spec_address_key r)
   \<and> (field r' ''address'' = field r ''address'' \<and> field r' ''city'' = field r ''city''
        \<and> field r' ''state'' = field r ''state'' \<and> field r' ''zip'' = field r ''zip''
        \<and> (spec_composite r \<noteq> [] \<or> field r' ''provider_name'' = field r ''provider_name'')
      \<longrightarrow> normalize_address_key (str_row r') = normalize_address_key (str_row r))
   \<and> normalize_address_key
        (str_row [(''provider_name'', ''Sunny Days Daycare''), (''address'', ''''),
                  (''city'', ''Duluth''), (''state'', ''MN''), (''zip'', ''55802'')])
      = Inr ''duluth mn 55802''"
  using normalize_address_key_str_row [of r] same_address_same_key [of r' r] sunny_days_key
  by blast

theorem address_key_matches_spec_witness:
  "spec_composite [(''provider_name'', ''A''), (''address'', ''1 Main St''), (''zip'', ''55802'')] \<noteq> []
   \<and> normalize_address_key
        (str_row [(''provider_name'', ''B''), (''zip'', ''55802''), (''address'', ''1 Main St'')])
      = normalize_address_key
        (str_row [(''provider_name'', ''A''), (''address'', ''1 Main St''), (''zip'', ''55802'')])
   \<and> normalize_address_key
        (str_row [(''provider_name'', ''A''), (''address'', ''1 Main St''), (''zip'', ''55802'')])
      = Inr ''1 main st 55802''"
proof -
  let ?r = "[(''provider_name'', ''A''), (''address'', ''1 Main St''), (''zip'', ''55802'')]"
  let ?r' = "[(''provider_name'', ''B''), (''zip'', ''55802''), (''address'', ''1 Main St'')]"
  have h: "field ?r' ''address'' = field ?r ''address'' \<and> field ?r' ''city'' = field ?r ''city''
        \<and> field ?r' ''state'' = field ?r ''state'' \<and> field ?r' ''zip'' = field ?r ''zip''
        \<and> (spec_composite ?r \<noteq> [] \<or> field ?r' ''provider_name'' = field ?r ''provider_name'')"
    by code_simp
  have c: "spec_composite ?r \<noteq> []" by code_simp
  have k: "spec_address_key ?r = ''1 main st 55802''" by code_simp
  from address_key_matches_spec [of ?r ?r'] h c k show ?thesis by simp
qed

section \<open>Item assignments and the invariant of the cache\<close>

lemma map_of_assign: "map_of (assign ws row) = map_of row ++ map_of (rev ws)"
proof (induction ws arbitrary: row)
  case Nil
  show ?case by (simp add: assign_def)
next
  case (Cons w ws)
  obtain k v where w: "w = (k, v)" by (cases w)
  have "assign (w # ws) row = assign ws (AList.update k v row)"
    by (simp add: assign_def w)
  then show ?case
    using Cons.IH [of "AList.update k v row"]
    by (auto simp: w update_conv' map_add_def fun_eq_iff split: option.splits)
qed

lemma keys_assign: "fst ` set (assign ws row) = fst ` set row \<union> fst ` set ws"
proof -
  have "dom (map_of (assign ws row)) = dom (map_of row) \<union> dom (map_of (rev ws))"
    by (simp add: map_of_assign Un_commute)
  then show ?thesis by (simp add: dom_map_of_conv_image_fst)
qed

lemma assign_other: "f \<notin> fst ` set ws \<Longrightarrow> map_of (assign ws row) f = map_of row f"
proof -
  assume "f \<notin> fst ` set ws"
  then have "map_of (rev ws) f = None"
    by (simp add: map_of_eq_None_iff)
  then show ?thesis by (simp add: map_of_assign map_add_def)
qed

lemma assign_last: "map_of (assign (ws @ [(k, v)]) row) k = Some v"
  by (simp add: map_of_assign)

lemma assign_distinct:
  assumes "distinct (map fst ws)" "(f, v) \<in> set ws"
  shows "map_of (assign ws row) f = Some v"
proof -
  have "distinct (map fst (rev ws))" using assms(1) by (simp add: rev_map [symmetric])
  then have "map_of (rev ws) f = Some v" using assms(2) by simp
  then show ?thesis by (simp add: map_of_assign)
qed

lemma places_status_prefix: "startswith ''places_status'' ''places_''"
  by (simp add: startswith_def)

lemma process_row_hit:
  assumes "normalize_address_key row = Inr k" "k \<noteq> []" "map_of (cache st) k = Some cached"
  shows "process_row py_str api st row
     = Inr (st\<lparr>enriched_rows := enriched_rows st
                  @ [assign (cached @ [(''places_status'', PStr ''CACHED'')]) row],
               writes := writes st @ [cached @ [(''places_status'', PStr ''CACHED'')]]\<rparr>)"
  using assms by (simp add: process_row_def Let_def)

lemma extract_places_fields_keys:
  "f \<in> fst ` set (extract_places_fields row) \<longleftrightarrow> f \<in> fst ` set row \<and> startswith f ''places_''"
  by (force simp: extract_places_fields_def)

lemma assigned_count_append:
  "assigned_count k (a @ b) = assigned_count k a + assigned_count k b"
  by (simp add: assigned_count_def)

lemma assigned_count_pos: "k \<in> fst ` set ws \<Longrightarrow> 1 \<le> assigned_count k ws"
proof -
  assume "k \<in> fst ` set ws"
  then obtain v where "(k, v) \<in> set ws" by auto
  then have "(k, v) \<in> set (filter (\<lambda>(k', v). k' = k) ws)" by simp
  then have "filter (\<lambda>(k', v). k' = k) ws \<noteq> []" by (metis empty_iff list.set(1))
  then show ?thesis by (simp add: assigned_count_def Suc_le_eq)
qed

lemma search_assignments_count:
  "assigned_count ''places_status'' (search_assignments py_str query place_id res) = 0"
  by (simp add: search_assignments_def assigned_count_def)

lemma details_assignments_count:
  "details_assignments py_str details = Inr ds \<Longrightarrow> assigned_count ''places_status'' ds = 0"
  by (auto simp: details_assignments_def assigned_count_def split: pyval.splits sum.splits)

lemma enrich_row_steps_shape:
  assumes "enrich_row_steps py_str api cs row = Inr (ws, cs')"
  shows "\<exists>ws0 v. ws = ws0 @ [(''places_status'', PStr v)]
           \<and> assigned_count ''places_status'' ws0 = 0
           \<and> v \<in> {''OK'', ''NO_MATCH'', ''NO_DETAILS''}"
proof -
  from assms obtain query where q: "build_query row = Inr query"
    by (auto simp: enrich_row_steps_def split: sum.splits)
  from assms q obtain result cs1 where s: "places_text_search api cs query = Inr (result, cs1)"
    by (auto simp: enrich_row_steps_def split: sum.splits)
  show ?thesis
  proof (cases "truthy result")
    case False
    with assms q s have "ws = [(''places_query'', PStr query)] @ [(''places_status'', PStr ''NO_MATCH'')]"
      by (simp add: enrich_row_steps_def)
    moreover have "assigned_count ''places_status'' [(''places_query'', PStr query)] = 0"
      by (simp add: assigned_count_def)
    ultimately show ?thesis by blast
  next
    case True
    with assms q s obtain res where r: "result = PDict res"
      by (auto simp: enrich_row_steps_def split: pyval.splits)
    let ?pid = "dict_get res ''place_id'' (PStr [])"
    from assms q s r True obtain details cs2 where
      d: "(if truthy ?pid then places_details api cs1 ?pid else Inr (PNone, cs1)) = Inr (details, cs2)"
      by (auto simp: enrich_row_steps_def Let_def split: sum.splits if_splits)
    show ?thesis
    proof (cases "truthy details")
      case False
      with assms q s r True d
      have "ws = search_assignments py_str query ?pid res @ [(''places_status'', PStr ''NO_DETAILS'')]"
        by (simp add: enrich_row_steps_def Let_def)
      then show ?thesis using search_assignments_count by blast
    next
      case td: True
      with assms q s r True d obtain ds where
        ds: "details_assignments py_str details = Inr ds"
        and w: "ws = (search_assignments py_str query ?pid res @ ds) @ [(''places_status'', PStr ''OK'')]"
        by (auto simp: enrich_row_steps_def Let_def split: sum.splits)
      have "assigned_count ''places_status'' (search_assignments py_str query ?pid res @ ds) = 0"
        by (simp add: assigned_count_append search_assignments_count details_assignments_count [OF ds])
      with w show ?thesis by blast
    qed
  qed
qed

lemma process_row_miss:
  assumes "normalize_address_key row = Inr k" "k = [] \<or> map_of (cache st) k = None"
    and "process_row py_str api st row = Inr st'"
  shows "\<exists>ws cs'. enrich_row_steps py_str api (calls st) row = Inr (ws, cs')
     \<and> st' = st\<lparr>cache := (if k \<noteq> [] then AList.update k (extract_places_fields (assign ws row)) (cache st)
                           else cache st),
                 enriched_rows := enriched_rows st @ [assign ws row],
                 calls := cs', writes := writes st @ [ws]\<rparr>"
proof -
  from assms(1,2) have "(if k \<noteq> [] then map_of (cache st) k else None) = None" by auto
  with assms(1,3) show ?thesis
    by (auto simp: process_row_def Let_def split: sum.splits)
qed

lemma cache_inv_grows:
  assumes "cache_inv st" "cache st' = cache st" "enriched_rows st' = enriched_rows st @ rs"
  shows "cache_inv st'"
  using assms unfolding cache_inv_def by (metis Un_iff set_append)

lemma process_row_cache_inv:
  assumes "cache_inv st" "process_row py_str api st row = Inr st'"
  shows "cache_inv st'"
proof -
  from assms(2) obtain k where k: "normalize_address_key row = Inr k"
    by (auto simp: process_row_def split: sum.splits)
  show ?thesis
  proof (cases "k = [] \<or> map_of (cache st) k = None")
    case False
    then obtain cached where "k \<noteq> []" "map_of (cache st) k = Some cached" by auto
    from process_row_hit [OF k this] assms(2)
    have "cache st' = cache st"
      "enriched_rows st' = enriched_rows st
         @ [assign (cached @ [(''places_status'', PStr ''CACHED'')]) row]"
      by auto
    with assms(1) show ?thesis by (rule cache_inv_grows)
  next
    case True
    from process_row_miss [OF k True assms(2)] obtain ws cs' where
      e: "enrich_row_steps py_str api (calls st) row = Inr (ws, cs')" and
      st': "st' = st\<lparr>cache := (if k \<noteq> [] then AList.update k (extract_places_fields (assign ws row)) (cache st)
                                else cache st),
                     enriched_rows := enriched_rows st @ [assign ws row],
                     calls := cs', writes := writes st @ [ws]\<rparr>"
      by blast
    from st' have rows: "enriched_rows st' = enriched_rows st @ [assign ws row]" by simp
    from enrich_row_steps_shape [OF e] have "''places_status'' \<in> fst ` set ws" by force
    then have ps: "''places_status'' \<in> fst ` set (extract_places_fields (assign ws row))"
      by (simp add: extract_places_fields_keys keys_assign places_status_prefix)
    show ?thesis
      unfolding cache_inv_def
    proof (intro allI impI)
      fix k' cf assume c: "map_of (cache st') k' = Some cf"
      show "''places_status'' \<in> fst ` set cf
          \<and> (\<exists>r \<in> set (enriched_rows st'). cf = extract_places_fields r)"
      proof (cases "k \<noteq> [] \<and> k' = k")
        case True
        with c st' have "cf = extract_places_fields (assign ws row)" by (simp add: update_conv')
        with ps rows show ?thesis by simp
      next
        case False
        with c st' have "map_of (cache st) k' = Some cf" by (auto simp: update_conv' split: if_splits)
        with assms(1) have "''places_status'' \<in> fst ` set cf"
          "\<exists>r \<in> set (enriched_rows st). cf = extract_places_fields r"
          by (simp_all add: cache_inv_def)
        with rows show ?thesis by auto
      qed
    qed
  qed
qed

lemma main_loop_cache_inv:
  "cache_inv st \<Longrightarrow> main_loop py_str api st rows = Inr st' \<Longrightarrow> cache_inv st'"
proof (induction rows arbitrary: st)
  case Nil
  then show ?case by simp
next
  case (Cons row rows)
  from Cons.prems(2) obtain st1 where s: "process_row py_str api st row = Inr st1"
    and l: "main_loop py_str api st1 rows = Inr st'"
    by (auto split: sum.splits)
  from process_row_cache_inv [OF Cons.prems(1) s] l show ?case by (rule Cons.IH)
qed

lemma cache_inv_init: "cache_inv init_state"
  by (simp add: cache_inv_def init_state_def)

section \<open>The outcomes of the enrichment client\<close>

lemma places_text_search_calls:
  "places_text_search api cs query = Inr (result, cs1) \<Longrightarrow> cs1 = cs @ [TextSearch query]"
  by (auto simp: places_text_search_def split: sum.splits if_splits)

lemma places_text_search_not_ok:
  "api cs (TextSearch query) = Inr (PDict d) \<Longrightarrow> dict_get d ''status'' PNone \<noteq> PStr ''OK'' \<Longrightarrow>
   places_text_search api cs query = Inr (PNone, cs @ [TextSearch query])"
  by (simp add: places_text_search_def)

lemma places_details_not_ok:
  "api cs (Details place_id) = Inr (PDict d) \<Longrightarrow> dict_get d ''status'' PNone \<noteq> PStr ''OK'' \<Longrightarrow>
   places_details api cs place_id = Inr (PNone, cs @ [Details place_id])"
  by (simp add: places_details_def)

lemma enrich_row_no_match:
  assumes "build_query row = Inr query"
    and "places_text_search api cs query = Inr (result, cs1)" "\<not> truthy result"
  shows "enrich_row py_str api cs row
    = Inr (assign [(''places_query'', PStr query), (''places_status'', PStr ''NO_MATCH'')] row,
           cs @ [TextSearch query])"
  using assms places_text_search_calls [OF assms(2)]
  by (simp add: enrich_row_def enrich_row_steps_def)

lemma places_keys_only:
  assumes "fst ` set row' = fst ` set row \<union> K"
  shows "(\<forall>f \<in> fst ` set row. \<not> startswith f ''places_'') \<longrightarrow>
         (\<forall>f \<in> fst ` set row'. startswith f ''places_'' \<longrightarrow> f \<in> K)"
  using assms by auto

lemma enrich_row_no_details:
  assumes "build_query row = Inr query"
    and "places_text_search api cs query = Inr (PDict res, cs1)" "res \<noteq> []"
    and "(if truthy (dict_get res ''place_id'' (PStr ''''))
          then places_details api cs1 (dict_get res ''place_id'' (PStr ''''))
          else Inr (PNone, cs1)) = Inr (details, cs2)"
    and "\<not> truthy details"
  shows "enrich_row py_str api cs row
    = Inr (assign (search_assignments py_str query (dict_get res ''place_id'' (PStr '''')) res
                     @ [(''places_status'', PStr ''NO_DETAILS'')]) row, cs2)"
  using assms by (simp add: enrich_row_def enrich_row_steps_def Let_def)

lemma search_keys:
  "map fst (search_assignments py_str query place_id res @ [(''places_status'', v)])
    = [''places_query'', ''places_place_id'', ''places_name'', ''places_formatted_address'',
       ''places_business_status'', ''places_rating'', ''places_user_ratings_total'',
       ''places_status'']"
  by (simp add: search_assignments_def)

lemma search_keys_distinct:
  "distinct (map fst (search_assignments py_str query place_id res @ [(''places_status'', v)]))"
  unfolding search_keys by simp

text \<open>
  A search response with status \<^verbatim>\<open>OK\<close> and an empty list of results raises in
  \<^verbatim>\<open>data.get("results", [None])[0]\<close>.
\<close>

lemma empty_results_raise: "places_text_search api_ok_empty [] ''A, Duluth'' = Inl IndexError"
  by code_simp

section \<open>The example run\<close>

lemma main_loop_row_a: "main_loop str_basic api_no_results init_state [row_a] = Inr state_a"
  by code_simp

lemma key_row_b: "normalize_address_key row_b = Inr ''duluth''"
  by code_simp

lemma cache_state_a:
  "map_of (cache state_a) ''duluth''
     = Some [(''places_query'', PStr ''A, Duluth''), (''places_status'', PStr ''NO_MATCH'')]"
  by code_simp

lemma process_row_b: "process_row str_basic api_no_results state_a row_b = Inr state_ab"
  by code_simp

lemma query_row_a: "build_query row_a = Inr ''A, Duluth''"
  by code_simp

lemma search_row_a:
  "places_text_search api_no_details [] ''A, Duluth''
     = Inr (PDict [(''place_id'', PStr ''p1''), (''name'', PStr ''Sunny Days'')], [TextSearch ''A, Duluth''])"
  by code_simp

section \<open>The cache-hit path of the orchestrator\<close>

text \<open>
  C2: for every record whose address key is non-empty and present in the cache, the
  iteration makes no remote call (the list of calls is unchanged) and leaves the cache
  as it is; the cached items are assigned to the record, then \<^verbatim>\<open>places_status\<close> is
  assigned \<^verbatim>\<open>CACHED\<close>, and the record is appended to the output. So the record reads
  \<^verbatim>\<open>CACHED\<close> under \<^verbatim>\<open>places_status\<close> and, under every other cached key, the cached
  value.
\<close>

theorem cache_hit_makes_no_call:
  assumes "normalize_address_key row = Inr k" "k \<noteq> []" "map_of (cache st) k = Some cached"
  shows "\<exists>st'. process_row py_str api st row = Inr st'
      \<and> calls st' = calls st \<and> cache st' = cache st
      \<and> enriched_rows st'
          = enriched_rows st @ [assign (cached @ [(''places_status'', PStr ''CACHED'')]) row]
      \<and> map_of (last (enriched_rows st')) ''places_status'' = Some (PStr ''CACHED'')
      \<and> (distinct (map fst cached) \<longrightarrow>
           (\<forall>(f, v) \<in> set cached. f \<noteq> ''places_status'' \<longrightarrow>
              map_of (last (enriched_rows st')) f = Some v))"
proof -
  let ?ws = "cached @ [(''places_status'', PStr ''CACHED'')]"
  have "distinct (map fst cached) \<Longrightarrow> (f, v) \<in> set cached \<Longrightarrow> f \<noteq> ''places_status''
      \<Longrightarrow> map_of (assign ?ws row) f = Some v" for f v
    using assign_distinct [of cached f v row] by (simp add: map_of_assign)
  then show ?thesis
    unfolding process_row_hit [OF assms] by (auto simp: assign_last)
qed

theorem cache_hit_makes_no_call_witness:
  "normalize_address_key row_b = Inr ''duluth''
   \<and> map_of (cache state_a) ''duluth''
        = Some [(''places_query'', PStr ''A, Duluth''), (''places_status'', PStr ''NO_MATCH'')]
   \<and> (\<exists>st'. process_row str_basic api_no_results state_a row_b = Inr st'
      \<and> calls st' = calls state_a \<and> cache st' = cache state_a
      \<and> enriched_rows st'
          = enriched_rows state_a
              @ [assign ([(''places_query'', PStr ''A, Duluth''), (''places_status'', PStr ''NO_MATCH'')]
                          @ [(''places_status'', PStr ''CACHED'')]) row_b]
      \<and> map_of (last (enriched_rows st')) ''places_status'' = Some (PStr ''CACHED'')
      \<and> (distinct (map fst [(''places_query'', PStr ''A, Duluth''), (''places_status'', PStr ''NO_MATCH'')]) \<longrightarrow>
           (\<forall>(f, v) \<in> set [(''places_query'', PStr ''A, Duluth''), (''places_status'', PStr ''NO_MATCH'')].
              f \<noteq> ''places_status'' \<longrightarrow> map_of (last (enriched_rows st')) f = Some v)))"
proof -
  have n: "''duluth'' \<noteq> []" by simp
  show ?thesis
    by (intro conjI key_row_b cache_state_a
        cache_hit_makes_no_call [OF key_row_b n cache_state_a])
qed

text \<open>
  C10: at any state that the loop reaches from the empty cache, a cache hit changes or
  adds only fields whose name starts with \<^verbatim>\<open>places_\<close>: every other field of the
  record (the ten core fields and \<^verbatim>\<open>raw_row\<close> among them) is present or absent
  after the hit as before, with the same value; the cached entry is the \<^verbatim>\<open>places_\<close>
  items of a record enriched before and holds only keys that start with \<^verbatim>\<open>places_\<close>.
\<close>

theorem cache_hit_changes_places_only:
  assumes "main_loop py_str api init_state rows = Inr st"
    and "normalize_address_key row = Inr k" "k \<noteq> []" "map_of (cache st) k = Some cached"
    and "\<not> startswith f ''places_''"
  shows "\<exists>st'. process_row py_str api st row = Inr st'
      \<and> map_of (last (enriched_rows st')) f = map_of row f
      \<and> (\<exists>r \<in> set (enriched_rows st). cached = extract_places_fields r)
      \<and> (\<forall>g \<in> fst ` set cached. startswith g ''places_'')"
proof -
  let ?ws = "cached @ [(''places_status'', PStr ''CACHED'')]"
  have "cache_inv st"
    using main_loop_cache_inv [OF cache_inv_init assms(1)] .
  with assms(4) have r: "\<exists>r \<in> set (enriched_rows st). cached = extract_places_fields r"
    by (simp add: cache_inv_def)
  then have c: "\<forall>g \<in> fst ` set cached. startswith g ''places_''"
    using extract_places_fields_keys by blast
  with assms(5) places_status_prefix have "f \<notin> fst ` set ?ws" by auto
  then have "map_of (assign ?ws row) f = map_of row f" by (rule assign_other)
  with c r show ?thesis
    unfolding process_row_hit [OF assms(2-4)] by simp
qed

theorem cache_hit_changes_places_only_witness:
  "main_loop str_basic api_no_results init_state [row_a] = Inr state_a
   \<and> normalize_address_key row_b = Inr ''duluth''
   \<and> map_of (cache state_a) ''duluth''
        = Some [(''places_query'', PStr ''A, Duluth''), (''places_status'', PStr ''NO_MATCH'')]
   \<and> \<not> startswith ''provider_name'' ''places_''
   \<and> (\<exists>st'. process_row str_basic api_no_results state_a row_b = Inr st'
      \<and> map_of (last (enriched_rows st')) ''provider_name'' = map_of row_b ''provider_name''
      \<and> (\<exists>r \<in> set (enriched_rows state_a).
            [(''places_query'', PStr ''A, Duluth''), (''places_status'', PStr ''NO_MATCH'')]
              = extract_places_fields r)
      \<and> (\<forall>g \<in> fst ` set [(''places_query'', PStr ''A, Duluth''), (''places_status'', PStr ''NO_MATCH'')].
            startswith g ''places_''))"
proof -
  have n: "''duluth'' \<noteq> []" by simp
  have p: "\<not> startswith ''provider_name'' ''places_''" by (simp add: startswith_def)
  show ?thesis
    by (intro conjI main_loop_row_a key_row_b cache_state_a p
        cache_hit_changes_places_only [OF main_loop_row_a key_row_b n cache_state_a p])
qed

section \<open>The assignments of the status\<close>

text \<open>
  C9 (as stated): \<^verbatim>\<open>places_status\<close> is assigned exactly once while a record is
  processed. In the run below the second record hits the cache: \<^verbatim>\<open>row.update\<close> assigns
  it the cached status and the next statement assigns \<^verbatim>\<open>CACHED\<close>, two assignments.
\<close>

theorem places_status_twice_counterexample:
  "map (assigned_count ''places_status'')
     (writes_of (main_loop str_basic api_no_results init_state [row_a, row_b])) = [1, 2]
   \<and> writes_of (main_loop str_basic api_no_results init_state [row_a, row_b])
      = [[(''places_query'', PStr ''A, Duluth''), (''places_status'', PStr ''NO_MATCH'')],
         [(''places_query'', PStr ''A, Duluth''), (''places_status'', PStr ''NO_MATCH''),
          (''places_status'', PStr ''CACHED'')]]"
  by code_simp

text \<open>
  C9 (amended): for every record processed at a state that the loop reaches from the
  empty cache, the final value of \<^verbatim>\<open>places_status\<close> is one of \<^verbatim>\<open>OK\<close>,
  \<^verbatim>\<open>NO_MATCH\<close>, \<^verbatim>\<open>NO_DETAILS\<close>, \<^verbatim>\<open>CACHED\<close>. On the uncached path it is assigned
  exactly once. On the cache-hit path the assignments are those of the cached items, which
  include \<^verbatim>\<open>places_status\<close>, followed by the assignment of \<^verbatim>\<open>CACHED\<close>: it is
  assigned at least twice.
\<close>

theorem places_status_assignments:
  assumes "main_loop py_str api init_state rows = Inr st"
    and "process_row py_str api st row = Inr st'"
  shows "\<exists>ws v. writes st' = writes st @ [ws]
      \<and> enriched_rows st' = enriched_rows st @ [assign ws row]
      \<and> map_of (assign ws row) ''places_status'' = Some (PStr v)
      \<and> v \<in> {''OK'', ''NO_MATCH'', ''NO_DETAILS'', ''CACHED''}
      \<and> (\<forall>k. normalize_address_key row = Inr k \<and> (k = [] \<or> map_of (cache st) k = None)
            \<longrightarrow> assigned_count ''places_status'' ws = 1)
      \<and> (\<forall>k cached. normalize_address_key row = Inr k \<and> k \<noteq> [] \<and> map_of (cache st) k = Some cached
            \<longrightarrow> ws = cached @ [(''places_status'', PStr ''CACHED'')]
                \<and> ''places_status'' \<in> fst ` set cached
                \<and> 2 \<le> assigned_count ''places_status'' ws)"
proof -
  have inv: "cache_inv st"
    using main_loop_cache_inv [OF cache_inv_init assms(1)] .
  from assms(2) obtain k where k: "normalize_address_key row = Inr k"
    by (auto simp: process_row_def split: sum.splits)
  show ?thesis
  proof (cases "k = [] \<or> map_of (cache st) k = None")
    case False
    then obtain cached where h: "k \<noteq> []" "map_of (cache st) k = Some cached" by auto
    let ?ws = "cached @ [(''places_status'', PStr ''CACHED'')]"
    from inv h(2) have ps: "''places_status'' \<in> fst ` set cached" by (simp add: cache_inv_def)
    have "2 \<le> assigned_count ''places_status'' ?ws"
      using assigned_count_pos [OF ps] by (simp add: assigned_count_append) (simp add: assigned_count_def)
    moreover have "writes st' = writes st @ [?ws]" "enriched_rows st' = enriched_rows st @ [assign ?ws row]"
      using process_row_hit [OF k h] assms(2) by auto
    moreover have "map_of (assign ?ws row) ''places_status'' = Some (PStr ''CACHED'')"
      by (rule assign_last)
    ultimately show ?thesis using k h ps by auto
  next
    case True
    from process_row_miss [OF k True assms(2)] obtain ws cs' where
      e: "enrich_row_steps py_str api (calls st) row = Inr (ws, cs')" and
      st': "writes st' = writes st @ [ws]" "enriched_rows st' = enriched_rows st @ [assign ws row]"
      by force
    from enrich_row_steps_shape [OF e] obtain ws0 v where
      w: "ws = ws0 @ [(''places_status'', PStr v)]" "assigned_count ''places_status'' ws0 = 0"
        "v \<in> {''OK'', ''NO_MATCH'', ''NO_DETAILS''}"
      by blast
    have "assigned_count ''places_status'' ws = 1"
      using w(1,2) by (simp add: assigned_count_append) (simp add: assigned_count_def)
    moreover have "map_of (assign ws row) ''places_status'' = Some (PStr v)"
      unfolding w(1) by (rule assign_last)
    ultimately show ?thesis using st' w(3) k True by auto
  qed
qed

theorem places_status_assignments_witness:
  "main_loop str_basic api_no_results init_state [row_a] = Inr state_a
   \<and> process_row str_basic api_no_results state_a row_b = Inr state_ab
   \<and> (\<exists>ws v. writes state_ab = writes state_a @ [ws]
      \<and> enriched_rows state_ab = enriched_rows state_a @ [assign ws row_b]
      \<and> map_of (assign ws row_b) ''places_status'' = Some (PStr v)
      \<and> v \<in> {''OK'', ''NO_MATCH'', ''NO_DETAILS'', ''CACHED''}
      \<and> (\<forall>k. normalize_address_key row_b = Inr k \<and> (k = [] \<or> map_of (cache state_a) k = None)
            \<longrightarrow> assigned_count ''places_status'' ws = 1)
      \<and> (\<forall>k cached. normalize_address_key row_b = Inr k \<and> k \<noteq> [] \<and> map_of (cache state_a) k = Some cached
            \<longrightarrow> ws = cached @ [(''places_status'', PStr ''CACHED'')]
                \<and> ''places_status'' \<in> fst ` set cached
                \<and> 2 \<le> assigned_count ''places_status'' ws))"
  by (intro conjI main_loop_row_a process_row_b
      places_status_assignments [OF main_loop_row_a process_row_b])

section \<open>Records without a match and records without details\<close>

text \<open>
  C5 (as stated): a record without a match carries no \<^verbatim>\<open>places_\<close> field other than
  \<^verbatim>\<open>places_query\<close> and \<^verbatim>\<open>places_status\<close>. The client only adds fields: the record
  below enters with a \<^verbatim>\<open>places_name\<close> and leaves with it.
\<close>

theorem no_match_keeps_fields_counterexample:
  "enrich_row str_basic api_no_results []
     (str_row [(''provider_name'', ''A''), (''places_name'', ''old'')])
   = Inr ([(''provider_name'', PStr ''A''), (''places_name'', PStr ''old''),
           (''places_query'', PStr ''A''), (''places_status'', PStr ''NO_MATCH'')],
          [TextSearch ''A''])
   \<and> startswith ''places_name'' ''places_''"
  by code_simp

text \<open>
  C5 (amended): for every uncached record, if the search response reports a status other
  than \<^verbatim>\<open>OK\<close>, or the search returns a result that is empty or \<^verbatim>\<open>None\<close>,
  the client makes exactly one call, the text search, and no details request; it assigns
  \<^verbatim>\<open>places_query\<close> the joined query and \<^verbatim>\<open>places_status\<close> the value
  \<^verbatim>\<open>NO_MATCH\<close>, and leaves every other field as it was. So a record that enters without
  \<^verbatim>\<open>places_\<close> fields carries none but these two.
\<close>

theorem no_match_record:
  assumes "build_query row = Inr query"
    and "(api cs (TextSearch query) = Inr (PDict d) \<and> dict_get d ''status'' PNone \<noteq> PStr ''OK'')
         \<or> (places_text_search api cs query = Inr (result, cs1) \<and> \<not> truthy result)"
  shows "\<exists>row'. enrich_row py_str api cs row = Inr (row', cs @ [TextSearch query])
      \<and> map_of row' ''places_query'' = Some (PStr query)
      \<and> map_of row' ''places_status'' = Some (PStr ''NO_MATCH'')
      \<and> (\<forall>f. f \<notin> {''places_query'', ''places_status''} \<longrightarrow> map_of row' f = map_of row f)
      \<and> fst ` set row' = fst ` set row \<union> {''places_query'', ''places_status''}
      \<and> ((\<forall>f \<in> fst ` set row. \<not> startswith f ''places_'') \<longrightarrow>
           (\<forall>f \<in> fst ` set row'. startswith f ''places_'' \<longrightarrow>
              f \<in> {''places_query'', ''places_status''}))"
proof -
  let ?ws = "[(''places_query'', PStr query), (''places_status'', PStr ''NO_MATCH'')]"
  from assms(2) obtain r c1 where s: "places_text_search api cs query = Inr (r, c1)" "\<not> truthy r"
    using places_text_search_not_ok [of api cs query d] by fastforce
  have e: "enrich_row py_str api cs row = Inr (assign ?ws row, cs @ [TextSearch query])"
    by (rule enrich_row_no_match [OF assms(1) s])
  have k: "fst ` set (assign ?ws row) = fst ` set row \<union> {''places_query'', ''places_status''}"
    by (simp add: keys_assign)
  have "map_of (assign ?ws row) ''places_query'' = Some (PStr query)"
    by (rule assign_distinct) simp_all
  moreover have "map_of (assign ?ws row) ''places_status'' = Some (PStr ''NO_MATCH'')"
    by (rule assign_distinct) simp_all
  moreover have "\<forall>f. f \<notin> {''places_query'', ''places_status''} \<longrightarrow>
      map_of (assign ?ws row) f = map_of row f"
    by (simp add: assign_other)
  ultimately show ?thesis using e k places_keys_only [OF k] by blast
qed

theorem no_match_record_witness:
  "build_query row_a = Inr ''A, Duluth''
   \<and> api_no_results [] (TextSearch ''A, Duluth'')
        = Inr (PDict [(''status'', PStr ''ZERO_RESULTS''), (''results'', PList [])])
   \<and> dict_get [(''status'', PStr ''ZERO_RESULTS''), (''results'', PList [])] ''status'' PNone
        \<noteq> PStr ''OK''
   \<and> (\<exists>row'. enrich_row str_basic api_no_results [] row_a = Inr (row', [] @ [TextSearch ''A, Duluth''])
      \<and> map_of row' ''places_query'' = Some (PStr ''A, Duluth'')
      \<and> map_of row' ''places_status'' = Some (PStr ''NO_MATCH'')
      \<and> (\<forall>f. f \<notin> {''places_query'', ''places_status''} \<longrightarrow> map_of row' f = map_of row_a f)
      \<and> fst ` set row' = fst ` set row_a \<union> {''places_query'', ''places_status''}
      \<and> ((\<forall>f \<in> fst ` set row_a. \<not> startswith f ''places_'') \<longrightarrow>
           (\<forall>f \<in> fst ` set row'. startswith f ''places_'' \<longrightarrow>
              f \<in> {''places_query'', ''places_status''})))"
proof -
  have a: "api_no_results [] (TextSearch ''A, Duluth'')
        = Inr (PDict [(''status'', PStr ''ZERO_RESULTS''), (''results'', PList [])])"
    by (simp add: api_no_results_def)
  have s: "dict_get [(''status'', PStr ''ZERO_RESULTS''), (''results'', PList [])] ''status'' PNone
        \<noteq> PStr ''OK''"
    by (simp add: dict_get_def)
  have h: "(api_no_results [] (TextSearch ''A, Duluth'')
              = Inr (PDict [(''status'', PStr ''ZERO_RESULTS''), (''results'', PList [])])
            \<and> dict_get [(''status'', PStr ''ZERO_RESULTS''), (''results'', PList [])] ''status'' PNone
                \<noteq> PStr ''OK'')
         \<or> (places_text_search api_no_results [] ''A, Duluth'' = Inr (PNone, []) \<and> \<not> truthy PNone)"
    using a s by (intro disjI1 conjI)
  show ?thesis
    by (intro conjI query_row_a a s no_match_record [OF query_row_a h])
qed

text \<open>
  C6 (as stated): a record without details carries no details-phase field. The client only
  adds fields: the record below enters with a \<^verbatim>\<open>places_website\<close> and leaves with it.
\<close>

theorem no_details_keeps_fields_counterexample:
  "enrich_row str_basic api_no_details []
     (str_row [(''provider_name'', ''A''), (''places_website'', ''http://old.example'')])
   = Inr ([(''provider_name'', PStr ''A''), (''places_website'', PStr ''http://old.example''),
           (''places_query'', PStr ''A''), (''places_place_id'', PStr ''p1''),
           (''places_name'', PStr ''Sunny Days''), (''places_formatted_address'', PStr ''''),
           (''places_business_status'', PStr ''''), (''places_rating'', PStr ''''),
           (''places_user_ratings_total'', PStr ''''), (''places_status'', PStr ''NO_DETAILS'')],
          [TextSearch ''A'', Details (PStr ''p1'')])"
  by code_simp

text \<open>
  C6 (amended): for every uncached record whose search returns a non-empty result, if the
  details response reports a status other than \<^verbatim>\<open>OK\<close>, or the details phase yields
  an empty result or \<^verbatim>\<open>None\<close> (also when the result has no place identifier and no
  request is made), the client assigns \<^verbatim>\<open>places_status\<close> the value \<^verbatim>\<open>NO_DETAILS\<close>
  and the seven search-phase fields their values from the search result, and leaves every
  other field as it was. So a record that enters without \<^verbatim>\<open>places_\<close> fields carries
  these eight and no details-phase field.
\<close>

theorem no_details_record:
  assumes "build_query row = Inr query"
    and "places_text_search api cs query = Inr (PDict res, cs1)" "res \<noteq> []"
    and "place_id = dict_get res ''place_id'' (PStr '''')"
    and "(truthy place_id \<and> api cs1 (Details place_id) = Inr (PDict d)
            \<and> dict_get d ''status'' PNone \<noteq> PStr ''OK'')
         \<or> ((if truthy place_id then places_details api cs1 place_id else Inr (PNone, cs1))
               = Inr (details, cs2) \<and> \<not> truthy details)"
  shows "\<exists>row' cs'. enrich_row py_str api cs row = Inr (row', cs')
      \<and> map_of row' ''places_status'' = Some (PStr ''NO_DETAILS'')
      \<and> map_of row' ''places_query'' = Some (PStr query)
      \<and> map_of row' ''places_place_id'' = Some place_id
      \<and> map_of row' ''places_name'' = Some (dict_get res ''name'' (PStr ''''))
      \<and> map_of row' ''places_formatted_address'' = Some (dict_get res ''formatted_address'' (PStr ''''))
      \<and> map_of row' ''places_business_status'' = Some (dict_get res ''business_status'' (PStr ''''))
      \<and> map_of row' ''places_rating'' = Some (PStr (py_str (dict_get res ''rating'' (PStr ''''))))
      \<and> map_of row' ''places_user_ratings_total''
            = Some (PStr (py_str (dict_get res ''user_ratings_total'' (PStr ''''))))
      \<and> (\<forall>f. f \<notin> {''places_query'', ''places_place_id'', ''places_name'',
                    ''places_formatted_address'', ''places_business_status'', ''places_rating'',
                    ''places_user_ratings_total'', ''places_status''}
            \<longrightarrow> map_of row' f = map_of row f)
      \<and> ((\<forall>f \<in> fst ` set row. \<not> startswith f ''places_'') \<longrightarrow>
           (\<forall>f \<in> fst ` set row'. startswith f ''places_'' \<longrightarrow>
              f \<in> {''places_query'', ''places_place_id'', ''places_name'',
                    ''places_formatted_address'', ''places_business_status'', ''places_rating'',
                    ''places_user_ratings_total'', ''places_status''}))"
proof -
  let ?K = "{''places_query'', ''places_place_id'', ''places_name'',
             ''places_formatted_address'', ''places_business_status'', ''places_rating'',
             ''places_user_ratings_total'', ''places_status''}"
  let ?ws = "search_assignments py_str query place_id res @ [(''places_status'', PStr ''NO_DETAILS'')]"
  from assms(5) obtain dt c2 where
    d: "(if truthy place_id then places_details api cs1 place_id else Inr (PNone, cs1)) = Inr (dt, c2)"
      "\<not> truthy dt"
    using places_details_not_ok [of api cs1 place_id d] by fastforce
  have e: "enrich_row py_str api cs row = Inr (assign ?ws row, c2)"
    using enrich_row_no_details [OF assms(1-3) d [unfolded assms(4)]] by (simp add: assms(4))
  have "set (map fst ?ws) = ?K"
    unfolding search_keys by simp
  then have keys: "fst ` set ?ws = ?K" by simp
  have k: "fst ` set (assign ?ws row) = fst ` set row \<union> ?K"
    unfolding keys_assign keys ..
  have m: "(f, v) \<in> set ?ws \<Longrightarrow> map_of (assign ?ws row) f = Some v" for f v
    by (rule assign_distinct [OF search_keys_distinct])
  have o: "\<forall>f. f \<notin> ?K \<longrightarrow> map_of (assign ?ws row) f = map_of row f"
    using assign_other [of _ ?ws row] unfolding keys by blast
  have "map_of (assign ?ws row) ''places_status'' = Some (PStr ''NO_DETAILS'')"
    "map_of (assign ?ws row) ''places_query'' = Some (PStr query)"
    "map_of (assign ?ws row) ''places_place_id'' = Some place_id"
    "map_of (assign ?ws row) ''places_name'' = Some (dict_get res ''name'' (PStr ''''))"
    "map_of (assign ?ws row) ''places_formatted_address'' = Some (dict_get res ''formatted_address'' (PStr ''''))"
    "map_of (assign ?ws row) ''places_business_status'' = Some (dict_get res ''business_status'' (PStr ''''))"
    "map_of (assign ?ws row) ''places_rating'' = Some (PStr (py_str (dict_get res ''rating'' (PStr ''''))))"
    "map_of (assign ?ws row) ''places_user_ratings_total''
       = Some (PStr (py_str (dict_get res ''user_ratings_total'' (PStr ''''))))"
    by (rule m, simp add: search_assignments_def)+
  then show ?thesis using e o places_keys_only [OF k] by blast
qed

theorem no_details_record_witness:
  "build_query row_a = Inr ''A, Duluth''
   \<and> places_text_search api_no_details [] ''A, Duluth''
     = Inr (PDict [(''place_id'', PStr ''p1''), (''name'', PStr ''Sunny Days'')], [TextSearch ''A, Duluth''])
   \<and> truthy (PStr ''p1'')
   \<and> api_no_details [TextSearch ''A, Duluth''] (Details (PStr ''p1''))
        = Inr (PDict [(''status'', PStr ''NOT_FOUND'')])
   \<and> (\<exists>row' cs'. enrich_row str_basic api_no_details [] row_a = Inr (row', cs')
      \<and> map_of row' ''places_status'' = Some (PStr ''NO_DETAILS'')
      \<and> map_of row' ''places_query'' = Some (PStr ''A, Duluth'')
      \<and> map_of row' ''places_place_id'' = Some (PStr ''p1'')
      \<and> map_of row' ''places_name''
           = Some (dict_get [(''place_id'', PStr ''p1''), (''name'', PStr ''Sunny Days'')] ''name'' (PStr ''''))
      \<and> map_of row' ''places_formatted_address''
           = Some (dict_get [(''place_id'', PStr ''p1''), (''name'', PStr ''Sunny Days'')] ''formatted_address'' (PStr ''''))
      \<and> map_of row' ''places_business_status''
           = Some (dict_get [(''place_id'', PStr ''p1''), (''name'', PStr ''Sunny Days'')] ''business_status'' (PStr ''''))
      \<and> map_of row' ''places_rating''
           = Some (PStr (str_basic (dict_get [(''place_id'', PStr ''p1''), (''name'', PStr ''Sunny Days'')] ''rating'' (PStr ''''))))
      \<and> map_of row' ''places_user_ratings_total''
            = Some (PStr (str_basic (dict_get [(''place_id'', PStr ''p1''), (''name'', PStr ''Sunny Days'')] ''user_ratings_total'' (PStr ''''))))
      \<and> (\<forall>f. f \<notin> {''places_query'', ''places_place_id'', ''places_name'',
                    ''places_formatted_address'', ''places_business_status'', ''places_rating'',
                    ''places_user_ratings_total'', ''places_status''}
            \<longrightarrow> map_of row' f = map_of row_a f)
      \<and> ((\<forall>f \<in> fst ` set row_a. \<not> startswith f ''places_'') \<longrightarrow>
           (\<forall>f \<in> fst ` set row'. startswith f ''places_'' \<longrightarrow>
              f \<in> {''places_query'', ''places_place_id'', ''places_name'',
                    ''places_formatted_address'', ''places_business_status'', ''places_rating'',
                    ''places_user_ratings_total'', ''places_status''})))"
proof -
  let ?res = "[(''place_id'', PStr ''p1''), (''name'', PStr ''Sunny Days'')]"
  have r: "?res \<noteq> []" by simp
  have p: "PStr ''p1'' = dict_get ?res ''place_id'' (PStr '''')" by (simp add: dict_get_def)
  have t: "truthy (PStr ''p1'')" by simp
  have a: "api_no_details [TextSearch ''A, Duluth''] (Details (PStr ''p1''))
        = Inr (PDict [(''status'', PStr ''NOT_FOUND'')])"
    by (simp add: api_no_details_def)
  have s: "dict_get [(''status'', PStr ''NOT_FOUND'')] ''status'' PNone \<noteq> PStr ''OK''"
    by (simp add: dict_get_def)
  have h: "(truthy (PStr ''p1'')
            \<and> api_no_details [TextSearch ''A, Duluth''] (Details (PStr ''p1''))
                = Inr (PDict [(''status'', PStr ''NOT_FOUND'')])
            \<and> dict_get [(''status'', PStr ''NOT_FOUND'')] ''status'' PNone \<noteq> PStr ''OK'')
         \<or> ((if truthy (PStr ''p1'')
               then places_details api_no_details [TextSearch ''A, Duluth''] (PStr ''p1'')
               else Inr (PNone, [TextSearch ''A, Duluth''])) = Inr (PNone, []) \<and> \<not> truthy PNone)"
    using t a s by (intro disjI1 conjI)
  show ?thesis
    by (intro conjI query_row_a search_row_a t a
        no_details_record [OF query_row_a search_row_a r p h])
qed

section \<open>The header of the enriched CSV\<close>

text \<open>
  C4 (as stated): the enriched CSV has the ten core columns first, in their fixed order,
  and the \<^verbatim>\<open>places_\<close> columns after them. For one enriched record with the ten core
  fields, the header is the sorted list of all its keys: it starts with \<^verbatim>\<open>address\<close>,
  and \<^verbatim>\<open>places_query\<close> comes before \<^verbatim>\<open>provider_name\<close>.
\<close>

theorem enriched_columns_counterexample:
  "fieldnames
     [str_row [(''license_number'', ''1''), (''provider_name'', ''Sunny Days Daycare''),
               (''doing_business_as'', ''''), (''license_type'', ''''), (''status'', ''''),
               (''address'', ''''), (''city'', ''Duluth''), (''state'', ''MN''), (''zip'', ''55802''),
               (''county'', ''''), (''places_query'', ''Sunny Days Daycare, Duluth, MN, 55802''),
               (''places_status'', ''NO_MATCH'')]]
   = [''address'', ''city'', ''county'', ''doing_business_as'', ''license_number'', ''license_type'',
      ''places_query'', ''places_status'', ''provider_name'', ''state'', ''status'', ''zip'']
   \<and> [''address'', ''city'', ''county'', ''doing_business_as'', ''license_number'', ''license_type'',
      ''places_query'', ''places_status'', ''provider_name'', ''state'', ''status'', ''zip'']
     \<noteq> out_fields @ [''places_query'', ''places_status'']"
  by code_simp

text \<open>
  C4 (amended): the header of the enriched CSV is the list of all keys of all enriched
  records, each once, in ascending order of the names (by code point), core and
  \<^verbatim>\<open>places_\<close> columns alike. The fixed order of the ten core columns is that of the
  normalized CSV of \<^verbatim>\<open>write_normalized_csv\<close>.
\<close>

theorem enriched_columns_sorted:
  "fst (write_enriched rows (fieldnames rows)) = fieldnames rows
   \<and> sorted (fieldnames rows) \<and> distinct (fieldnames rows)
   \<and> set (fieldnames rows) = set (concat (map (map fst) rows))"
  by (simp add: write_enriched_def fieldnames_def)

section \<open>The Column Mapper\<close>

lemma map_of_setdefault:
  "map_of (setdefault k v d) f = (if f = k \<and> map_of d k = None then Some v else map_of d f)"
  by (auto simp: setdefault_def map_add_def split: option.splits)

lemma sources_Cons:
  "sources row ((src_col, norm_col) # cm) f
     = (if norm_col = f \<and> cell row src_col \<noteq> [] then src_col # sources row cm f
        else sources row cm f)"
  by (simp add: sources_def)

text \<open>
  After the loop over any mapping table, a field holds the trimmed cell of the last
  entry of the table that supplies it, and what it held before when no entry does.
\<close>

lemma map_of_map_columns:
  "map_of (map_columns row cm normalized) f
     = (if sources row cm f = [] then map_of normalized f
        else Some (PStr (py_strip (cell row (last (sources row cm f))))))"
proof (induction cm arbitrary: normalized)
  case Nil
  show ?case by (simp add: sources_def)
next
  case (Cons e cm)
  obtain src_col norm_col where e: "e = (src_col, norm_col)" by (cases e)
  show ?case
  proof (cases "cell row src_col = []")
    case True
    then have "map_columns row (e # cm) normalized = map_columns row cm normalized"
      by (auto simp: e cell_def split: option.splits)
    with True Cons.IH [of normalized] show ?thesis by (simp add: e sources_Cons)
  next
    case False
    then have "map_columns row (e # cm) normalized
        = map_columns row cm (AList.update norm_col (PStr (py_strip (cell row src_col))) normalized)"
      by (auto simp: e cell_def split: option.splits)
    with False Cons.IH [of "AList.update norm_col (PStr (py_strip (cell row src_col))) normalized"]
    show ?thesis by (auto simp: e sources_Cons update_conv')
  qed
qed

text \<open>The nine \<^verbatim>\<open>setdefault\<close> calls are a fold over the list of the defaults.\<close>

lemma map_of_fold_setdefault:
  "map_of (fold (\<lambda>(k, v). setdefault k v) ds d) f
     = (case map_of d f of Some x \<Rightarrow> Some x | None \<Rightarrow> map_of ds f)"
proof (induction ds arbitrary: d)
  case Nil
  show ?case by (simp split: option.splits)
next
  case (Cons e ds)
  obtain k v where e: "e = (k, v)" by (cases e)
  show ?case
    using Cons.IH [of "setdefault k v d"]
    by (auto simp: e map_of_setdefault split: option.splits)
qed

lemma normalize_row_fold:
  "normalize_row row
     = fold (\<lambda>(k, v). setdefault k v)
         [(''license_number'', PStr ''''), (''provider_name'', PStr ''''),
          (''license_type'', PStr ''''), (''city'', PStr ''''), (''state'', PStr ''MN''),
          (''zip'', PStr ''''), (''county'', PStr ''''), (''status'', PStr ''''),
          (''address'', PStr '''')]
         (map_columns row column_map [(''raw_row'', raw_value row)])"
  by (simp add: normalize_row_def Let_def)

lemma map_of_normalize_row:
  "map_of (normalize_row row) f
     = (if sources row column_map f \<noteq> [] then
          Some (PStr (py_strip (cell row (last (sources row column_map f)))))
        else if f = ''raw_row'' then Some (raw_value row)
        else map_of [(''license_number'', PStr ''''), (''provider_name'', PStr ''''),
                     (''license_type'', PStr ''''), (''city'', PStr ''''), (''state'', PStr ''MN''),
                     (''zip'', PStr ''''), (''county'', PStr ''''), (''status'', PStr ''''),
                     (''address'', PStr '''')] f)"
  unfolding normalize_row_fold map_of_fold_setdefault map_of_map_columns
  by simp

text \<open>
  C8: for every row and every canonical field for which at least one source column of
  the mapping table is present with a non-empty value (two or more in particular), the
  record holds under that field the value of the last such column in table order, with
  the whitespace at both ends removed.
\<close>

theorem last_source_wins:
  "sources row column_map f \<noteq> [] \<Longrightarrow>
   map_of (normalize_row row) f
     = Some (PStr (py_strip (cell row (last (sources row column_map f)))))"
  by (simp add: map_of_normalize_row)

theorem last_source_wins_witness:
  "sources [(''Provider Name'', Some '' New ''), (''License Holder Name'', Some ''Old '')]
      column_map ''provider_name'' = [''License Holder Name'', ''Provider Name'']
   \<and> map_of (normalize_row [(''Provider Name'', Some '' New ''), (''License Holder Name'', Some ''Old '')])
        ''provider_name'' = Some (PStr ''New'')"
proof -
  let ?row = "[(''Provider Name'', Some '' New ''), (''License Holder Name'', Some ''Old '')]"
  have s: "sources ?row column_map ''provider_name'' = [''License Holder Name'', ''Provider Name'']"
    by code_simp
  have c: "py_strip (cell ?row ''Provider Name'') = ''New''" by code_simp
  have n: "sources ?row column_map ''provider_name'' \<noteq> []" unfolding s by simp
  have "map_of (normalize_row ?row) ''provider_name''
      = Some (PStr (py_strip (cell ?row (last (sources ?row column_map ''provider_name'')))))"
    by (rule last_source_wins [OF n])
  also have "\<dots> = Some (PStr ''New'')" unfolding s using c by simp
  finally show ?thesis using s by (rule_tac conjI)
qed

text \<open>
  C1 (as stated): every canonical record holds all ten core fields. No default is set for
  \<^verbatim>\<open>doing_business_as\<close>: a row without a DBA column gives a record without that
  key.
\<close>

theorem doing_business_as_counterexample:
  "map_of (normalize_row [(''Provider Name'', Some ''Sunny Days Daycare''), (''City'', Some ''Duluth'')])
     ''doing_business_as'' = None
   \<and> ''doing_business_as'' \<notin> fst ` set (normalize_row [(''Provider Name'', Some ''Sunny Days Daycare''), (''City'', Some ''Duluth'')])"
  by code_simp

text \<open>
  C1 (amended): for every upstream row, the canonical record holds the nine core fields
  \<^verbatim>\<open>license_number\<close>, \<^verbatim>\<open>provider_name\<close>, \<^verbatim>\<open>license_type\<close>, \<^verbatim>\<open>status\<close>,
  \<^verbatim>\<open>address\<close>, \<^verbatim>\<open>city\<close>, \<^verbatim>\<open>state\<close>, \<^verbatim>\<open>zip\<close>, \<^verbatim>\<open>county\<close> as
  strings: the trimmed value of the last supplying column, and where no mapped column
  supplies the field, the empty string, or \<^verbatim>\<open>MN\<close> for the state. The tenth,
  \<^verbatim>\<open>doing_business_as\<close>, is present exactly when a mapped column supplies it.
\<close>

theorem core_fields_present:
  "(\<forall>f \<in> {''license_number'', ''provider_name'', ''license_type'', ''status'', ''address'', ''city'',
            ''state'', ''zip'', ''county''}.
      map_of (normalize_row row) f
        = Some (PStr (if sources row column_map f \<noteq> []
                      then py_strip (cell row (last (sources row column_map f)))
                      else if f = ''state'' then ''MN'' else '''')))
   \<and> map_of (normalize_row row) ''doing_business_as''
        = (if sources row column_map ''doing_business_as'' \<noteq> []
           then Some (PStr (py_strip (cell row (last (sources row column_map ''doing_business_as'')))))
           else None)"
proof (intro conjI ballI)
  fix f :: string
  assume "f \<in> {''license_number'', ''provider_name'', ''license_type'', ''status'', ''address'',
                 ''city'', ''state'', ''zip'', ''county''}"
  then show "map_of (normalize_row row) f
      = Some (PStr (if sources row column_map f \<noteq> []
                    then py_strip (cell row (last (sources row column_map f)))
                    else if f = ''state'' then ''MN'' else ''''))"
    by (elim insertE emptyE) (simp_all add: map_of_normalize_row)
next
  show "map_of (normalize_row row) ''doing_business_as''
      = (if sources row column_map ''doing_business_as'' \<noteq> []
         then Some (PStr (py_strip (cell row (last (sources row column_map ''doing_business_as'')))))
         else None)"
    by (simp add: map_of_normalize_row)
qed


theorem core_fields_present_witness:
  "map_of (normalize_row [(''Provider Name'', Some ''Sunny Days Daycare''), (''City'', Some ''Duluth'')])
      ''provider_name'' = Some (PStr ''Sunny Days Daycare'')
   \<and> map_of (normalize_row [(''Provider Name'', Some ''Sunny Days Daycare''), (''City'', Some ''Duluth'')])
      ''state'' = Some (PStr ''MN'')"
proof -
  let ?row = "[(''Provider Name'', Some ''Sunny Days Daycare''), (''City'', Some ''Duluth'')]"
  note t = core_fields_present [of ?row, THEN conjunct1, THEN bspec]
  have s: "sources ?row column_map ''provider_name'' = [''Provider Name'']"
    "sources ?row column_map ''state'' = []"
    by code_simp+
  have c: "py_strip (cell ?row ''Provider Name'') = ''Sunny Days Daycare''" by code_simp
  have "map_of (normalize_row ?row) ''provider_name'' = Some (PStr ''Sunny Days Daycare'')"
    using t [of "''provider_name''"] unfolding s using c by simp
  moreover have "map_of (normalize_row ?row) ''state'' = Some (PStr ''MN'')"
    using t [of "''state''"] unfolding s by simp
  ultimately show ?thesis by (rule conjI)
qed

section \<open>The HTML Record Extractor\<close>

lemma rx_match_consumes:
  "(s', g') \<in> set (rx_match n r sg) \<Longrightarrow> \<exists>u. fst sg = u @ s' \<and> (needs c r \<longrightarrow> c \<in> set u)"
proof (induction n r sg arbitrary: s' g' rule: rx_match.induct)
  case (1 n sc)
  then show ?case by auto
next
  case (2 n p s g)
  then show ?case by (auto split: list.splits if_splits)
next
  case (3 n a b sc)
  from "3.prems" obtain s1 g1 where
    a: "(s1, g1) \<in> set (rx_match n a sc)" and b: "(s', g') \<in> set (rx_match n b (s1, g1))"
    by auto
  from "3.IH"(1) [OF a] obtain u1 where u1: "fst sc = u1 @ s1" "needs c a \<longrightarrow> c \<in> set u1"
    by auto
  from "3.IH"(2) [OF a b] obtain u2 where u2: "s1 = u2 @ s'" "needs c b \<longrightarrow> c \<in> set u2"
    by auto
  from u1 u2 have "fst sc = (u1 @ u2) @ s'" "needs c (Seq a b) \<longrightarrow> c \<in> set (u1 @ u2)"
    by auto
  then show ?case by blast
next
  case (4 n a sc)
  from "4.prems" consider "(s', g') \<in> set (rx_match n a sc)" | "(s', g') = sc" by auto
  then show ?case
  proof cases
    case 1
    from "4.IH" [OF this] show ?thesis by auto
  next
    case 2
    then show ?thesis by auto
  qed
next
  case (5 n i a s g)
  from "5.prems" obtain g1 where "(s', g1) \<in> set (rx_match n a (s, g))" by auto
  from "5.IH" [OF this] show ?case by auto
next
  case (6 a sc)
  then show ?case by auto
next
  case (7 n a s g)
  from "7.prems" consider (step) s1 g1 where "(s1, g1) \<in> set (rx_match (Suc n) a (s, g))"
      "length s1 < length s" "(s', g') \<in> set (rx_match n (Star a) (s1, g1))"
    | (stop) "(s', g') = (s, g)"
    by auto
  then show ?case
  proof cases
    case step
    from "7.IH"(1) [OF step(1)] obtain u1 where "s = u1 @ s1" by auto
    moreover from "7.IH"(2) step obtain u2 where "s1 = u2 @ s'" by fastforce
    ultimately have "s = (u1 @ u2) @ s'" by simp
    then show ?thesis by (intro exI [of _ "u1 @ u2"]) simp
  next
    case stop
    then show ?thesis by auto
  qed
next
  case (8 a sc)
  then show ?case by auto
next
  case (9 n a s g)
  from "9.prems" consider (step) s1 g1 where "(s1, g1) \<in> set (rx_match (Suc n) a (s, g))"
      "length s1 < length s" "(s', g') \<in> set (rx_match n (Lazy a) (s1, g1))"
    | (stop) "(s', g') = (s, g)"
    by auto
  then show ?case
  proof cases
    case step
    from "9.IH"(1) [OF step(1)] obtain u1 where "s = u1 @ s1" by auto
    moreover from "9.IH"(2) step obtain u2 where "s1 = u2 @ s'" by fastforce
    ultimately have "s = (u1 @ u2) @ s'" by simp
    then show ?thesis by (intro exI [of _ "u1 @ u2"]) simp
  next
    case stop
    then show ?thesis by auto
  qed
qed

text \<open>
  The bound on the iterations is never reached: every bound that is at least the length of
  the text gives the same matches.
\<close>

lemma rx_match_shorter:
  "(s', g') \<in> set (rx_match n r sg) \<Longrightarrow> length s' \<le> length (fst sg)"
  using rx_match_consumes [of s' g' n r sg] by fastforce

lemma rx_match_fuel:
  "length (fst sg) \<le> n \<Longrightarrow> length (fst sg) \<le> m \<Longrightarrow> rx_match n r sg = rx_match m r sg"
proof (induction n r sg arbitrary: m rule: rx_match.induct)
  case (1 n sc)
  show ?case by simp
next
  case (2 n p s g)
  show ?case by simp
next
  case (3 n a b sc)
  have a: "rx_match n a sc = rx_match m a sc" using "3.IH"(1) [of m] "3.prems" by simp
  have "rx_match n b x = rx_match m b x" if "x \<in> set (rx_match n a sc)" for x
  proof -
    from that rx_match_shorter [of "fst x" "snd x" n a sc] have "length (fst x) \<le> length (fst sc)"
      by simp
    with "3.IH"(2) [OF that, where m = m] "3.prems" show ?thesis by simp
  qed
  then have e: "map (rx_match n b) (rx_match n a sc) = map (rx_match m b) (rx_match n a sc)"
    by simp
  have "rx_match n (Seq a b) sc = concat (map (rx_match m b) (rx_match n a sc))"
    by (simp only: rx_match.simps e)
  also have "\<dots> = rx_match m (Seq a b) sc"
    by (simp only: rx_match.simps a)
  finally show ?case .
next
  case (4 n a sc)
  from "4.IH" [of m] "4.prems" show ?case by simp
next
  case (5 n i a s g)
  from "5.IH" [of m] "5.prems" show ?case by simp
next
  case (6 a sc)
  then have "fst sc = []" by simp
  then obtain g where sc: "sc = ([], g)" by (cases sc) auto
  show ?case
  proof (cases m)
    case 0
    then show ?thesis by simp
  next
    case (Suc m')
    have "filter (\<lambda>(s', g'). length s' < length ([] :: string)) xs = []" for xs :: "(string \<times> groups) list"
      by (induction xs) auto
    then show ?thesis by (simp add: Suc sc)
  qed
next
  case (7 n a s g)
  show ?case
  proof (cases m)
    case 0
    with "7.prems" have s: "s = []" by simp
    have "filter (\<lambda>(s', g'). length s' < length ([] :: string)) xs = []" for xs :: "(string \<times> groups) list"
      by (induction xs) auto
    then show ?thesis by (simp add: 0 s)
  next
    case (Suc m')
    have a: "rx_match (Suc n) a (s, g) = rx_match (Suc m') a (s, g)"
      using "7.IH"(1) [of "Suc m'"] "7.prems" Suc by simp
    let ?xs = "filter (\<lambda>(s', g'). length s' < length s) (rx_match (Suc n) a (s, g))"
    have "rx_match n (Star a) x = rx_match m' (Star a) x" if "x \<in> set ?xs" for x
    proof -
      from that have "length (fst x) < length s" by auto
      with "7.prems" Suc have "length (fst x) \<le> n" "length (fst x) \<le> m'" by simp_all
      with "7.IH"(2) [OF that, where m = m'] show ?thesis by simp
    qed
    then have e: "map (rx_match n (Star a)) ?xs = map (rx_match m' (Star a)) ?xs" by simp
    show ?thesis
      unfolding Suc rx_match.simps e unfolding a ..
  qed
next
  case (8 a sc)
  then have "fst sc = []" by simp
  then obtain g where sc: "sc = ([], g)" by (cases sc) auto
  show ?case
  proof (cases m)
    case 0
    then show ?thesis by simp
  next
    case (Suc m')
    have "filter (\<lambda>(s', g'). length s' < length ([] :: string)) xs = []" for xs :: "(string \<times> groups) list"
      by (induction xs) auto
    then show ?thesis by (simp add: Suc sc)
  qed
next
  case (9 n a s g)
  show ?case
  proof (cases m)
    case 0
    with "9.prems" have s: "s = []" by simp
    have "filter (\<lambda>(s', g'). length s' < length ([] :: string)) xs = []" for xs :: "(string \<times> groups) list"
      by (induction xs) auto
    then show ?thesis by (simp add: 0 s)
  next
    case (Suc m')
    have a: "rx_match (Suc n) a (s, g) = rx_match (Suc m') a (s, g)"
      using "9.IH"(1) [of "Suc m'"] "9.prems" Suc by simp
    let ?xs = "filter (\<lambda>(s', g'). length s' < length s) (rx_match (Suc n) a (s, g))"
    have "rx_match n (Lazy a) x = rx_match m' (Lazy a) x" if "x \<in> set ?xs" for x
    proof -
      from that have "length (fst x) < length s" by auto
      with "9.prems" Suc have "length (fst x) \<le> n" "length (fst x) \<le> m'" by simp_all
      with "9.IH"(2) [OF that, where m = m'] show ?thesis by simp
    qed
    then have e: "map (rx_match n (Lazy a)) ?xs = map (rx_match m' (Lazy a)) ?xs" by simp
    show ?thesis
      unfolding Suc rx_match.simps e unfolding a ..
  qed
qed

lemma rx_match_needs:
  assumes "needs c r" "c \<notin> set s"
  shows "rx_match n r (s, g) = []"
proof (rule ccontr)
  assume "rx_match n r (s, g) \<noteq> []"
  then obtain s' g' where "(s', g') \<in> set (rx_match n r (s, g))"
    by (cases "rx_match n r (s, g)") auto
  from rx_match_consumes [OF this, of c] assms show False by auto
qed

lemma re_match_needs: "needs c r \<Longrightarrow> c \<notin> set s \<Longrightarrow> re_match r s = None"
  by (simp add: re_match_def rx_match_needs)

lemma finditer_needs: "needs c r \<Longrightarrow> c \<notin> set s \<Longrightarrow> finditer r s = []"
  by (induction s) (simp_all add: re_match_needs)

lemma re_sub_needs: "needs c r \<Longrightarrow> c \<notin> set s \<Longrightarrow> re_sub r repl s = s"
  by (induction s) (simp_all add: re_match_needs)

lemma needs_seqs: "r \<in> set rs \<Longrightarrow> needs c r \<Longrightarrow> needs c (seqs rs)"
  by (induction rs) (auto simp: seqs_def)

lemma needs_backslash: "needs (CHR 0x5C) backslash"
  by (simp add: backslash_def)

lemma listing_rx_needs: "needs (CHR 0x5C) listing_rx"
  unfolding listing_rx_def by (rule needs_seqs [OF _ needs_backslash]) simp

lemma br_rx_needs: "needs (CHR 0x5C) br_rx"
  unfolding br_rx_def by (rule needs_seqs [OF _ needs_backslash]) simp

lemma city_rx_needs: "needs (CHR 0x5C) city_rx"
  unfolding city_rx_def by (rule needs_seqs [OF _ needs_backslash]) simp

text \<open>A page without a backslash character gives no record.\<close>

lemma no_backslash_no_record:
  "CHR 0x5C \<notin> set html_text \<Longrightarrow> parse_providers_html unescape html_text = []"
  by (simp add: parse_providers_html_def finditer_needs [OF listing_rx_needs])

text \<open>
  In a text without a backslash no \<^verbatim>\<open><br>\<close> becomes a line break, and no line matches
  the pattern of city, state and ZIP.
\<close>

lemma no_backslash_no_line_break:
  "CHR 0x5C \<notin> set text \<Longrightarrow> re_sub br_rx [CHR 0x0A] text = text"
  by (rule re_sub_needs [OF br_rx_needs])

lemma no_backslash_no_city: "CHR 0x5C \<notin> set line \<Longrightarrow> re_match city_rx line = None"
  by (rule re_match_needs [OF city_rx_needs])

lemma listing_page_no_backslash: "CHR 0x5C \<notin> set listing_page"
  by code_simp

lemma listing_page_no_record: "parse_providers_html no_entities listing_page = []"
  by (rule no_backslash_no_record [OF listing_page_no_backslash])

lemma left_block_lines:
  "clean_html_block no_entities ''123 Main St<br>Duluth, MN 55802<br>St. Louis County''
     = [''123 Main StDuluth, MN 55802St. Louis County'']"
  by code_simp

lemma city_line_no_match: "re_match city_rx ''Duluth, MN 55802'' = None"
  by code_simp

text \<open>What the pattern of the second line does match: backslashes and letters.\<close>

lemma city_rx_matches_backslashes:
  "re_match city_rx
     (''Duluth,'' @ [CHR 0x5C] @ ''sssMN'' @ [CHR 0x5C] @ ''s'' @ [CHR 0x5C] @ ''ddddd'')
   = Some (21, [(1, ''Duluth''), (2, ''MN''), (3, [CHR 0x5C] @ ''ddddd'')])"
  by code_simp

lemma left_block_record:
  "html_record no_entities
     [(1, ''Sunny Days Daycare''), (2, ''Active''),
      (3, ''123 Main St<br>Duluth, MN 55802<br>St. Louis County''),
      (4, ''License number: 1234567<br>Type of service: Child Care Center'')]
   = [(''raw_row'',
         PDict [(''left_block'', PStr ''123 Main St<br>Duluth, MN 55802<br>St. Louis County''),
                (''right_block'',
                   PStr ''License number: 1234567<br>Type of service: Child Care Center'')]),
      (''license_number'', PStr ''''),
      (''provider_name'', PStr ''Sunny Days Daycare''),
      (''license_type'', PStr ''''),
      (''status'', PStr ''Active''),
      (''address'', PStr ''123 Main StDuluth, MN 55802St. Louis County''),
      (''city'', PStr ''''),
      (''state'', PStr ''MN''),
      (''zip'', PStr ''''),
      (''county'', PStr '''')]"
  by code_simp

text \<open>
  C7: for a listing block in the documented layout the extractor should give a record
  with the first line as address, city, state and ZIP from \<^verbatim>\<open>City, ST ZIPCODE\<close> on the
  second line and the county from a later line. The code does not: its patterns demand a
  backslash character where white space or digits were meant. The page \<^const>\<open>listing_page\<close>
  gives no record at all. Its left block, passed to the body of the loop, is not broken
  into lines at \<^verbatim>\<open><br>\<close>: the whole block becomes the address and city, ZIP and county
  stay empty. The line \<^verbatim>\<open>Duluth, MN 55802\<close> does not match the pattern of the second
  line.
\<close>

theorem html_listing_not_extracted:
  "parse_providers_html no_entities listing_page = []
   \<and> clean_html_block no_entities ''123 Main St<br>Duluth, MN 55802<br>St. Louis County''
       = [''123 Main StDuluth, MN 55802St. Louis County'']
   \<and> re_match city_rx ''Duluth, MN 55802'' = None
   \<and> html_record no_entities
        [(1, ''Sunny Days Daycare''), (2, ''Active''),
         (3, ''123 Main St<br>Duluth, MN 55802<br>St. Louis County''),
         (4, ''License number: 1234567<br>Type of service: Child Care Center'')]
      = [(''raw_row'',
            PDict [(''left_block'', PStr ''123 Main St<br>Duluth, MN 55802<br>St. Louis County''),
                   (''right_block'',
                      PStr ''License number: 1234567<br>Type of service: Child Care Center'')]),
         (''license_number'', PStr ''''),
         (''provider_name'', PStr ''Sunny Days Daycare''),
         (''license_type'', PStr ''''),
         (''status'', PStr ''Active''),
         (''address'', PStr ''123 Main StDuluth, MN 55802St. Louis County''),
         (''city'', PStr ''''),
         (''state'', PStr ''MN''),
         (''zip'', PStr ''''),
         (''county'', PStr '''')]"
  by (intro conjI listing_page_no_record left_block_lines city_line_no_match left_block_record)

end
